theory Spec2Isabelle
  imports Main "HOL-Library.Word"
begin

section \<open>Multipart uploads of the blob store (package blobstore)\<close>

text \<open>
  The development embeds the multipart-upload code of package \<^verbatim>\<open>blobstore\<close>
  (\<^verbatim>\<open>NewUpload\<close>, \<^verbatim>\<open>PutPart\<close>, \<^verbatim>\<open>checkPartSizes\<close>,
  \<^verbatim>\<open>initializePart\<close>, \<^verbatim>\<open>FinishUpload\<close>, \<^verbatim>\<open>setUploadHash\<close>,
  \<^verbatim>\<open>copyBlob\<close>, \<^verbatim>\<open>RemoveExpiredUploads\<close>, \<^verbatim>\<open>RemoveUpload\<close>,
  \<^verbatim>\<open>removeUpload\<close>, \<^verbatim>\<open>getUpload\<close>) as functions on an explicit store.

  Every Go function that mutates the store returns the store next to its result, also
  when the result is an error: what was written before the error stays written.
  A function runs as one step on the store it is given. \<^verbatim>\<open>setUploadHash\<close> and
  \<^verbatim>\<open>removeUpload\<close> take, as in the code, the document that their caller read
  before as an argument of its own, so that a store which another caller changed
  between the read and the write is an input like any other.
  Go's \<^verbatim>\<open>int\<close> and \<^verbatim>\<open>int64\<close> are \<^typ>\<open>int\<close>: the code only compares
  them, so no arithmetic can overflow; the one conversion, \<^verbatim>\<open>uint32(size)\<close>, is
  \<^const>\<open>word_of_int\<close> into \<^typ>\<open>32 word\<close>, which reduces modulo \<open>2 ^ 32\<close> as Go
  does. A \<^verbatim>\<open>*PartInfo\<close> is a \<^typ>\<open>'a option\<close> (\<open>None\<close> is \<^verbatim>\<open>nil\<close>).
\<close>

subsection \<open>Constants and records\<close>

type_synonym content = "8 word list"

definition maxParts :: int where
  "maxParts = 400"

definition minPartSize :: int where
  "minPartSize = 5 * 1024 * 1024"

definition maxPartSize :: int where
  "maxPartSize = 2 ^ 32 - 1"

record MultipartIndex =
  Sizes :: "32 word list"

record Part =
  Hash :: string

record PartInfo =
  Hash :: string
  Size :: int
  Complete :: bool

text \<open>The Go struct \<^verbatim>\<open>uploadDoc\<close>, as \<^verbatim>\<open>getUpload\<close> decodes it.\<close>

record uploadDoc =
  Id :: string
  Hash :: string
  Expires :: int
  Parts :: "PartInfo option list"

record UploadInfo =
  Parts :: "PartInfo option list"
  Expires :: int
  Hash :: string

text \<open>
  The document as the collection holds it. The struct tag \<^verbatim>\<open>bson:"hash,omitempty"\<close>
  leaves the field \<^verbatim>\<open>hash\<close> out of a document whose \<^verbatim>\<open>Hash\<close> is empty, and
  the selectors of the code test \<^verbatim>\<open>{"hash": {"$exists": false}}\<close>, so the stored
  document records whether the field is there: \<open>doc_hash = None\<close> is an absent field.
\<close>

record storedDoc =
  doc_id :: string
  doc_hash :: "string option"
  doc_expires :: int
  doc_parts :: "PartInfo option list"

definition decodeDoc :: "storedDoc \<Rightarrow> uploadDoc" where
  "decodeDoc d =
     \<lparr>Id = doc_id d,
      uploadDoc.Hash = (case doc_hash d of None \<Rightarrow> [] | Some h \<Rightarrow> h),
      uploadDoc.Expires = doc_expires d,
      uploadDoc.Parts = doc_parts d\<rparr>"

definition encodeDoc :: "uploadDoc \<Rightarrow> storedDoc" where
  "encodeDoc u =
     \<lparr>doc_id = Id u,
      doc_hash = (if uploadDoc.Hash u = [] then None else Some (uploadDoc.Hash u)),
      doc_expires = uploadDoc.Expires u,
      doc_parts = uploadDoc.Parts u\<rparr>"

subsection \<open>Errors\<close>

text \<open>
  One constructor for each place where the code makes an error, with the values its
  message prints. \<open>ErrNotFound\<close> is the package variable of that name,
  \<open>MgoErrNotFound\<close> is \<^verbatim>\<open>mgo.ErrNotFound\<close>. \<open>BlobNotFound\<close> and
  \<open>BackendFailure\<close> are what the blob operations outside this file return: an error
  whose cause is \<^verbatim>\<open>ErrNotFound\<close>, and any other failure. \<open>RuntimePanic\<close> stands for
  an index out of range or a nil dereference.
\<close>

datatype error =
    ErrNotFound
  | MgoErrNotFound
  | MgoDuplicateKey
  | BlobNotFound string
  | BackendFailure string
  | CursorFailure
  | RuntimePanic
  | CannotCreateNewUpload error
  | NegativePartNumber
  | PartNumberTooBig int
  | NonPositivePartSize int int
  | PartTooBig int
  | UploadIdNotFound string
  | PartTooSmall int
  | PartWasTooSmall int int
  | HashMismatchAlreadyUploaded
  | UploadAlreadyComplete
  | CannotUpdateInitialPartRecord
  | CannotUploadPart string error
  | CannotMarkPartComplete error
  | PartCountMismatch int int
  | PartNotUploadedYet int
  | HashMismatchOnPart int string string
  | UploadExpiredOrRemoved
  | CannotOpenBlob string error
  | FailedToRemoveSomeData error

text \<open>
  \<^verbatim>\<open>errgo.Cause(err) == ErrNotFound\<close>. The cause survives only where the code keeps
  it: \<^verbatim>\<open>errgo.WithCausef(nil, ErrNotFound, ...)\<close> in \<^verbatim>\<open>getUpload\<close>, and
  \<^verbatim>\<open>errgo.NoteMask(err, ..., errgo.Is(ErrNotFound))\<close> in \<^verbatim>\<open>copyBlob\<close>.
  \<^verbatim>\<open>errgo.Notef\<close> and \<^verbatim>\<open>errgo.Newf\<close> make an error with no cause.
\<close>

fun causeIsErrNotFound :: "error \<Rightarrow> bool" where
  "causeIsErrNotFound ErrNotFound = True"
| "causeIsErrNotFound (BlobNotFound n) = True"
| "causeIsErrNotFound (UploadIdNotFound u) = True"
| "causeIsErrNotFound (CannotOpenBlob n e) = causeIsErrNotFound e"
| "causeIsErrNotFound e = False"

subsection \<open>The store\<close>

text \<open>
  \<open>uploadc\<close> is the collection of upload documents, in the order of insertion, one
  document for each id. \<open>blobs\<close> is the backing blob store, by blob name.
  \<open>broken\<close> is the set of blob names on which the backing store fails with an error
  other than not-found. \<open>logged\<close> is what \<^verbatim>\<open>logger.Errorf\<close> was called with in
  \<^verbatim>\<open>removeUpload\<close>: the blob name and the error, the latest first.
\<close>

record Store =
  uploadc :: "storedDoc list"
  blobs :: "string \<rightharpoonup> content"
  broken :: "string set"
  logged :: "(string \<times> error) list"

subsubsection \<open>The collection (mgo)\<close>

text \<open>
  The collection is the one of the library \<^verbatim>\<open>mgo\<close>. \<^verbatim>\<open>Insert\<close> refuses a
  second document of the same \<^verbatim>\<open>_id\<close>; \<^verbatim>\<open>Update\<close> and \<^verbatim>\<open>Remove\<close> act
  on the first document that the selector matches and return \<^verbatim>\<open>mgo.ErrNotFound\<close>
  (here \<open>None\<close>) when there is none. A failure of the connection to the database is
  not modelled: the branches of the code for other errors of the collection have no
  counterpart here, but for the error of the iterator in \<^verbatim>\<open>RemoveExpiredUploads\<close>.
\<close>

definition coll_FindId :: "string \<Rightarrow> storedDoc list \<Rightarrow> storedDoc option" where
  "coll_FindId uploadId c = find (\<lambda>d. doc_id d = uploadId) c"

definition coll_Insert :: "storedDoc \<Rightarrow> storedDoc list \<Rightarrow> storedDoc list option" where
  "coll_Insert d c = (if coll_FindId (doc_id d) c = None then Some (c @ [d]) else None)"

fun coll_Update :: "(storedDoc \<Rightarrow> bool) \<Rightarrow> (storedDoc \<Rightarrow> storedDoc) \<Rightarrow> storedDoc list \<Rightarrow> storedDoc list option" where
  "coll_Update sel upd [] = None"
| "coll_Update sel upd (d # c) =
     (if sel d then Some (upd d # c)
      else (case coll_Update sel upd c of None \<Rightarrow> None | Some c' \<Rightarrow> Some (d # c')))"

fun coll_Remove :: "(storedDoc \<Rightarrow> bool) \<Rightarrow> storedDoc list \<Rightarrow> storedDoc list option" where
  "coll_Remove sel [] = None"
| "coll_Remove sel (d # c) =
     (if sel d then Some c
      else (case coll_Remove sel c of None \<Rightarrow> None | Some c' \<Rightarrow> Some (d # c')))"

text \<open>
  \<^verbatim>\<open>{"$set": {"parts.<k>": v}}\<close>: the element \<open>k\<close> of the array is replaced; an
  array that is too short is padded with nulls first.
\<close>

definition setPartElem :: "nat \<Rightarrow> PartInfo \<Rightarrow> PartInfo option list \<Rightarrow> PartInfo option list" where
  "setPartElem k v ps =
     (if k < length ps then ps[k := Some v]
      else ps @ replicate (k - length ps) None @ [Some v])"

text \<open>
  The selector \<^verbatim>\<open>{"$or": [{"parts.<k>": {"$exists": false}}, {"parts.<k>": nil}]}\<close>.
\<close>

definition partElemAbsent :: "nat \<Rightarrow> PartInfo option list \<Rightarrow> bool" where
  "partElemAbsent k ps = (length ps \<le> k \<or> ps ! k = None)"

subsubsection \<open>The backing blob store\<close>

text \<open>
  \<^verbatim>\<open>Store.Put\<close>, \<^verbatim>\<open>Store.Open\<close> and \<^verbatim>\<open>Store.Remove\<close> are methods of the
  same package outside the files at hand. What is known of them is the capability set
  \<^verbatim>\<open>put(name, stream, size, hash)\<close>, \<^verbatim>\<open>open(name) -> (stream, size)\<close>,
  \<^verbatim>\<open>remove(name)\<close>, and what the code at hand expects of their errors: a cause
  \<^verbatim>\<open>ErrNotFound\<close> for a blob that is absent, any other error otherwise. On a name in
  \<open>broken\<close> each of the three fails with such an other error and changes nothing.
\<close>

text \<open>
  Modelled from the spec: \<^verbatim>\<open>Store.Put\<close>, the capability
  \<^verbatim>\<open>put(name, stream, size, hash)\<close>; it stores the content \<open>r\<close> of the stream
  under the name.
\<close>

definition Put :: "Store \<Rightarrow> content \<Rightarrow> string \<Rightarrow> int \<Rightarrow> string \<Rightarrow> error option \<times> Store" where
  "Put s r name psize hash =
     (if name \<in> broken s then (Some (BackendFailure name), s)
      else (None, s\<lparr>blobs := (blobs s)(name \<mapsto> r)\<rparr>))"

text \<open>
  Modelled from the spec: \<^verbatim>\<open>Store.Open\<close>, the capability
  \<^verbatim>\<open>open(name) -> (stream, size)\<close>; it returns the content of the blob of that name.
\<close>

definition Open :: "Store \<Rightarrow> string \<Rightarrow> error + content" where
  "Open s name =
     (if name \<in> broken s then Inl (BackendFailure name)
      else (case blobs s name of None \<Rightarrow> Inl (BlobNotFound name) | Some c \<Rightarrow> Inr c))"

text \<open>
  Modelled from the spec: \<^verbatim>\<open>Store.Remove\<close>, the capability \<^verbatim>\<open>remove(name)\<close>; it
  deletes the blob of that name.
\<close>

definition Remove :: "Store \<Rightarrow> string \<Rightarrow> error option \<times> Store" where
  "Remove s name =
     (if name \<in> broken s then (Some (BackendFailure name), s)
      else (case blobs s name of
              None \<Rightarrow> (Some (BlobNotFound name), s)
            | Some c \<Rightarrow> (None, s\<lparr>blobs := (blobs s)(name := None)\<rparr>)))"

subsection \<open>Names of part blobs\<close>

text \<open>\<^verbatim>\<open>fmt.Sprintf("%s/%d", uploadId, part)\<close>.\<close>

definition digitChar :: "nat \<Rightarrow> char" where
  "digitChar d = ''0123456789'' ! d"

fun decimal :: "nat \<Rightarrow> string" where
  "decimal n = (if n < 10 then [digitChar n] else decimal (n div 10) @ [digitChar (n mod 10)])"

declare decimal.simps [simp del]

definition fmt_d :: "int \<Rightarrow> string" where
  "fmt_d i = (if i < 0 then CHR ''-'' # decimal (nat (- i)) else decimal (nat i))"

definition uploadPartName :: "string \<Rightarrow> int \<Rightarrow> string" where
  "uploadPartName uploadId part = uploadId @ ''/'' @ fmt_d part"

subsection \<open>NewUpload, getUpload, UploadInfo\<close>

text \<open>
  \<^verbatim>\<open>bson.NewObjectId()\<close> is outside the code; the id it makes is the argument
  \<open>uploadId\<close>.
\<close>

definition NewUpload :: "Store \<Rightarrow> string \<Rightarrow> int \<Rightarrow> (error + string) \<times> Store" where
  "NewUpload s uploadId expires =
     (case coll_Insert (encodeDoc \<lparr>Id = uploadId, uploadDoc.Hash = [], uploadDoc.Expires = expires, uploadDoc.Parts = []\<rparr>) (uploadc s) of
        None \<Rightarrow> (Inl (CannotCreateNewUpload MgoDuplicateKey), s)
      | Some c \<Rightarrow> (Inr uploadId, s\<lparr>uploadc := c\<rparr>))"

definition getUpload :: "Store \<Rightarrow> string \<Rightarrow> error + uploadDoc" where
  "getUpload s uploadId =
     (case coll_FindId uploadId (uploadc s) of
        None \<Rightarrow> Inl (UploadIdNotFound uploadId)
      | Some d \<Rightarrow> Inr (decodeDoc d))"

definition UploadInfo :: "Store \<Rightarrow> string \<Rightarrow> error + UploadInfo" where
  "UploadInfo s uploadId =
     (case getUpload s uploadId of
        Inl e \<Rightarrow> Inl e
      | Inr udoc \<Rightarrow>
          Inr \<lparr>UploadInfo.Parts = uploadDoc.Parts udoc,
               UploadInfo.Expires = uploadDoc.Expires udoc,
               UploadInfo.Hash = uploadDoc.Hash udoc\<rparr>)"

subsection \<open>checkPartSizes\<close>

text \<open>
  The loop \<^verbatim>\<open>for i, p := range parts\<close> of \<^verbatim>\<open>checkPartSizes\<close>, from index \<open>i\<close> on.
\<close>

fun checkPartSizesLoop :: "int \<Rightarrow> PartInfo option list \<Rightarrow> int \<Rightarrow> error option" where
  "checkPartSizesLoop i [] part = None"
| "checkPartSizesLoop i (p # ps) part =
     (case p of
        None \<Rightarrow> checkPartSizesLoop (i + 1) ps part
      | Some q \<Rightarrow>
          if i \<noteq> part \<and> Size q < minPartSize then Some (PartWasTooSmall i (Size q))
          else checkPartSizesLoop (i + 1) ps part)"

definition checkPartSizes :: "PartInfo option list \<Rightarrow> int \<Rightarrow> int \<Rightarrow> error option" where
  "checkPartSizes parts part psize =
     (if 0 \<le> part \<and> part < int (length parts) - 1 \<and> psize < minPartSize
      then Some (PartTooSmall psize)
      else checkPartSizesLoop 0 parts part)"

subsection \<open>PutPart\<close>

definition initializePart :: "Store \<Rightarrow> string \<Rightarrow> int \<Rightarrow> string \<Rightarrow> int \<Rightarrow> error option \<times> Store" where
  "initializePart s uploadId part hash psize =
     (case coll_Update
             (\<lambda>d. doc_id d = uploadId \<and> doc_hash d = None \<and> partElemAbsent (nat part) (doc_parts d))
             (\<lambda>d. d\<lparr>doc_parts := setPartElem (nat part) \<lparr>PartInfo.Hash = hash, Size = psize, Complete = False\<rparr> (doc_parts d)\<rparr>)
             (uploadc s) of
        None \<Rightarrow> (Some CannotUpdateInitialPartRecord, s)
      | Some c \<Rightarrow> (None, s\<lparr>uploadc := c\<rparr>))"

text \<open>
  The end of \<^verbatim>\<open>PutPart\<close>, which both branches of its \<^verbatim>\<open>if\<close> reach: the blob is
  put, then the whole part record is overwritten by \<^verbatim>\<open>UpdateId\<close>.
\<close>

definition putAndMarkComplete :: "Store \<Rightarrow> string \<Rightarrow> int \<Rightarrow> content \<Rightarrow> int \<Rightarrow> string \<Rightarrow> error option \<times> Store" where
  "putAndMarkComplete s uploadId part r psize hash =
     (case Put s r (uploadPartName uploadId part) psize hash of
        (Some e, s1) \<Rightarrow> (Some (CannotUploadPart (uploadPartName uploadId part) e), s1)
      | (None, s1) \<Rightarrow>
          (case coll_Update
                  (\<lambda>d. doc_id d = uploadId)
                  (\<lambda>d. d\<lparr>doc_parts := setPartElem (nat part) \<lparr>PartInfo.Hash = hash, Size = psize, Complete = True\<rparr> (doc_parts d)\<rparr>)
                  (uploadc s1) of
             None \<Rightarrow> (Some (CannotMarkPartComplete MgoErrNotFound), s1)
           | Some c \<Rightarrow> (None, s1\<lparr>uploadc := c\<rparr>)))"

definition PutPart :: "Store \<Rightarrow> string \<Rightarrow> int \<Rightarrow> content \<Rightarrow> int \<Rightarrow> string \<Rightarrow> error option \<times> Store" where
  "PutPart s uploadId part r psize hash =
     (if part < 0 then (Some NegativePartNumber, s)
      else if maxParts \<le> part then (Some (PartNumberTooBig part), s)
      else if psize \<le> 0 then (Some (NonPositivePartSize part psize), s)
      else if maxPartSize \<le> psize then (Some (PartTooBig part), s)
      else (case getUpload s uploadId of
        Inl e \<Rightarrow> (Some e, s)
      | Inr udoc \<Rightarrow>
          (case checkPartSizes (uploadDoc.Parts udoc) part psize of
             Some e \<Rightarrow> (Some e, s)
           | None \<Rightarrow>
               if part < int (length (uploadDoc.Parts udoc)) \<and> uploadDoc.Parts udoc ! nat part \<noteq> None
               then (case uploadDoc.Parts udoc ! nat part of
                       None \<Rightarrow> (Some RuntimePanic, s)
                     | Some p \<Rightarrow>
                         if PartInfo.Hash p \<noteq> hash then (Some HashMismatchAlreadyUploaded, s)
                         else if Complete p then (None, s)
                         else putAndMarkComplete s uploadId part r psize hash)
               else if uploadDoc.Hash udoc \<noteq> [] then (Some UploadAlreadyComplete, s)
               else (case initializePart s uploadId part hash psize of
                       (Some e, s1) \<Rightarrow> (Some e, s1)
                     | (None, s1) \<Rightarrow> putAndMarkComplete s1 uploadId part r psize hash))))"

subsection \<open>FinishUpload\<close>

text \<open>
  The loop \<^verbatim>\<open>for i, p := range parts\<close> of \<^verbatim>\<open>FinishUpload\<close> with
  \<^verbatim>\<open>pu := udoc.Parts[i]\<close>, from index \<open>i\<close> on. The second equation is the index
  out of range, which the comparison of the two lengths before the loop excludes.
\<close>

fun checkFinishParts :: "int \<Rightarrow> Part list \<Rightarrow> PartInfo option list \<Rightarrow> error option" where
  "checkFinishParts i [] pus = None"
| "checkFinishParts i (p # ps) [] = Some RuntimePanic"
| "checkFinishParts i (p # ps) (pu # pus) =
     (case pu of
        None \<Rightarrow> Some (PartNotUploadedYet i)
      | Some u \<Rightarrow>
          if \<not> Complete u then Some (PartNotUploadedYet i)
          else if Part.Hash p \<noteq> PartInfo.Hash u
            then Some (HashMismatchOnPart i (Part.Hash p) (PartInfo.Hash u))
          else checkFinishParts (i + 1) ps pus)"

text \<open>
  \<^verbatim>\<open>copyBlob(h, name)\<close>: the accumulator \<open>w\<close> is the hash \<^verbatim>\<open>h\<close>, held as the bytes
  written to it so far; \<^verbatim>\<open>io.Copy\<close> appends the content of the blob.
\<close>

definition copyBlob :: "Store \<Rightarrow> content \<Rightarrow> string \<Rightarrow> error + content" where
  "copyBlob s w name =
     (case Open s name of
        Inl e \<Rightarrow> Inl (CannotOpenBlob name e)
      | Inr c \<Rightarrow> Inr (w @ c))"

text \<open>
  The loop \<^verbatim>\<open>for i := range udoc.Parts\<close> of \<^verbatim>\<open>setUploadHash\<close>, from index \<open>i\<close> on.
\<close>

fun copyBlobs :: "Store \<Rightarrow> string \<Rightarrow> int \<Rightarrow> PartInfo option list \<Rightarrow> content \<Rightarrow> error + content" where
  "copyBlobs s uploadId i [] w = Inr w"
| "copyBlobs s uploadId i (p # ps) w =
     (case copyBlob s w (uploadPartName uploadId i) of
        Inl e \<Rightarrow> Inl e
      | Inr w' \<Rightarrow> copyBlobs s uploadId (i + 1) ps w')"

text \<open>
  \<open>hexsum\<close> is \<^verbatim>\<open>fmt.Sprintf("%x", h.Sum(nil))\<close> for the hash \<^verbatim>\<open>NewHash()\<close> of
  the package (SHA-384), as a function of the bytes written to it. \<open>wholeHash\<close> is
  the part of \<^verbatim>\<open>setUploadHash\<close> that assigns the variable \<^verbatim>\<open>hash\<close>: the hash of
  the only part, or the hash of all the blobs copied in the order of their indices.
\<close>

definition wholeHash :: "(content \<Rightarrow> string) \<Rightarrow> Store \<Rightarrow> string \<Rightarrow> uploadDoc \<Rightarrow> error + string" where
  "wholeHash hexsum s uploadId udoc =
     (if length (uploadDoc.Parts udoc) = 1
      then (case uploadDoc.Parts udoc ! 0 of
              None \<Rightarrow> Inl RuntimePanic
            | Some p \<Rightarrow> Inr (PartInfo.Hash p))
      else (case copyBlobs s uploadId 0 (uploadDoc.Parts udoc) [] of
              Inl e \<Rightarrow> Inl e
            | Inr w \<Rightarrow> Inr (hexsum w)))"

text \<open>
  \<^verbatim>\<open>setUploadHash\<close> works on the document \<open>udoc\<close> that \<^verbatim>\<open>FinishUpload\<close> read at
  its start; the store \<open>s\<close> is the store at the time of the call. \<^verbatim>\<open>UpdateId\<close>
  selects by \<^verbatim>\<open>_id\<close> alone.
\<close>

definition setUploadHash :: "(content \<Rightarrow> string) \<Rightarrow> Store \<Rightarrow> string \<Rightarrow> uploadDoc \<Rightarrow> (error + string) \<times> Store" where
  "setUploadHash hexsum s uploadId udoc =
     (if uploadDoc.Hash udoc \<noteq> [] then (Inr (uploadDoc.Hash udoc), s)
      else
        (case wholeHash hexsum s uploadId udoc of
           Inl e \<Rightarrow> (Inl e, s)
         | Inr hash \<Rightarrow>
             (case coll_Update (\<lambda>d. doc_id d = uploadId) (\<lambda>d. d\<lparr>doc_hash := Some hash\<rparr>) (uploadc s) of
                None \<Rightarrow> (Inl ErrNotFound, s)
              | Some c \<Rightarrow> (Inr hash, s\<lparr>uploadc := c\<rparr>))))"

text \<open>
  The loop that fills \<^verbatim>\<open>idx.Sizes\<close>; \<open>None\<close> is the nil dereference
  \<^verbatim>\<open>udoc.Parts[i].Size\<close>, which the checks before it exclude.
\<close>

fun indexSizes :: "PartInfo option list \<Rightarrow> 32 word list option" where
  "indexSizes [] = Some []"
| "indexSizes (None # ps) = None"
| "indexSizes (Some p # ps) =
     (case indexSizes ps of None \<Rightarrow> None | Some ws \<Rightarrow> Some (word_of_int (Size p) # ws))"

definition FinishUpload :: "(content \<Rightarrow> string) \<Rightarrow> Store \<Rightarrow> string \<Rightarrow> Part list \<Rightarrow> (error + MultipartIndex \<times> string) \<times> Store" where
  "FinishUpload hexsum s uploadId parts =
     (case getUpload s uploadId of
        Inl e \<Rightarrow> (Inl e, s)
      | Inr udoc \<Rightarrow>
          if length parts \<noteq> length (uploadDoc.Parts udoc)
          then (Inl (PartCountMismatch (int (length parts)) (int (length (uploadDoc.Parts udoc)))), s)
          else (case checkFinishParts 0 parts (uploadDoc.Parts udoc) of
             Some e \<Rightarrow> (Inl e, s)
           | None \<Rightarrow>
               (case checkPartSizes (uploadDoc.Parts udoc) (- 1) 0 of
                  Some e \<Rightarrow> (Inl e, s)
                | None \<Rightarrow>
                    (case setUploadHash hexsum s uploadId udoc of
                       (Inl e, s1) \<Rightarrow>
                         if causeIsErrNotFound e then (Inl UploadExpiredOrRemoved, s1)
                         else (Inl e, s1)
                     | (Inr hash, s1) \<Rightarrow>
                         (case indexSizes (uploadDoc.Parts udoc) of
                            None \<Rightarrow> (Inl RuntimePanic, s1)
                          | Some ws \<Rightarrow> (Inr (\<lparr>Sizes = ws\<rparr>, hash), s1))))))"

subsection \<open>Removal\<close>

text \<open>
  The loop \<^verbatim>\<open>for i := range udoc.Parts\<close> of \<^verbatim>\<open>removeUpload\<close>, from index \<open>i\<close> on,
  with the variable \<^verbatim>\<open>removeErr\<close>.
\<close>

fun removePartBlobs :: "Store \<Rightarrow> string \<Rightarrow> int \<Rightarrow> PartInfo option list \<Rightarrow> error option \<Rightarrow> error option \<times> Store" where
  "removePartBlobs s uploadId i [] removeErr = (removeErr, s)"
| "removePartBlobs s uploadId i (p # ps) removeErr =
     (case Remove s (uploadPartName uploadId i) of
        (None, s1) \<Rightarrow> removePartBlobs s1 uploadId (i + 1) ps removeErr
      | (Some e, s1) \<Rightarrow>
          if causeIsErrNotFound e then removePartBlobs s1 uploadId (i + 1) ps removeErr
          else removePartBlobs
                 (s1\<lparr>logged := (uploadPartName uploadId i, e) # logged s1\<rparr>)
                 uploadId (i + 1) ps
                 (if removeErr = None then Some e else removeErr))"

text \<open>
  \<^verbatim>\<open>removeUpload\<close> works on the document \<open>udoc\<close> that its caller read before; the
  store \<open>s\<close> is the store at the time of the call, which another caller may have
  changed since. The variables \<^verbatim>\<open>removedDoc\<close> and \<^verbatim>\<open>removeParts\<close> are the two
  booleans of the triple.
\<close>

definition removeUpload :: "Store \<Rightarrow> uploadDoc \<Rightarrow> error option \<times> Store" where
  "removeUpload s udoc =
     (case (if uploadDoc.Hash udoc = []
            then (case coll_Remove (\<lambda>d. doc_id d = Id udoc \<and> doc_hash d = None) (uploadc s) of
                    Some c \<Rightarrow> (True, True, s\<lparr>uploadc := c\<rparr>)
                  | None \<Rightarrow> (False, False, s))
            else (False, False, s)) of
        (removedDoc, removeParts, s1) \<Rightarrow>
          (case (if \<not> removedDoc
                 then (case coll_Remove (\<lambda>d. doc_id d = Id udoc) (uploadc s1) of
                         Some c \<Rightarrow> s1\<lparr>uploadc := c\<rparr>
                       | None \<Rightarrow> s1)
                 else s1) of
             s2 \<Rightarrow>
               if \<not> removeParts then (None, s2)
               else (case removePartBlobs s2 (Id udoc) 0 (uploadDoc.Parts udoc) None of
                       (None, s3) \<Rightarrow> (None, s3)
                     | (Some e, s3) \<Rightarrow> (Some (FailedToRemoveSomeData e), s3))))"

definition RemoveUpload :: "Store \<Rightarrow> string \<Rightarrow> error option \<times> Store" where
  "RemoveUpload s uploadId =
     (case getUpload s uploadId of
        Inl e \<Rightarrow> if causeIsErrNotFound e then (None, s) else (Some e, s)
      | Inr udoc \<Rightarrow> removeUpload s udoc)"

text \<open>
  The loop \<^verbatim>\<open>for it.Next(&udoc)\<close> of \<^verbatim>\<open>RemoveExpiredUploads\<close> over the documents
  the iterator yields.
\<close>

fun removeUploads :: "Store \<Rightarrow> uploadDoc list \<Rightarrow> error option \<times> Store" where
  "removeUploads s [] = (None, s)"
| "removeUploads s (udoc # udocs) =
     (case removeUpload s udoc of
        (Some e, s1) \<Rightarrow> (Some e, s1)
      | (None, s1) \<Rightarrow> removeUploads s1 udocs)"

text \<open>
  \<open>now\<close> is \<^verbatim>\<open>time.Now()\<close>; \<open>itErr\<close> is what \<^verbatim>\<open>it.Err()\<close> returns once the
  iterator has yielded the documents whose expiry is before \<open>now\<close>.
\<close>

definition expiredUploads :: "Store \<Rightarrow> int \<Rightarrow> uploadDoc list" where
  "expiredUploads s now = map decodeDoc (filter (\<lambda>d. doc_expires d < now) (uploadc s))"

definition RemoveExpiredUploads :: "error option \<Rightarrow> int \<Rightarrow> Store \<Rightarrow> error option \<times> Store" where
  "RemoveExpiredUploads itErr now s =
     (case removeUploads s (expiredUploads s now) of
        (Some e, s1) \<Rightarrow> (Some e, s1)
      | (None, s1) \<Rightarrow> (case itErr of Some e \<Rightarrow> (Some e, s1) | None \<Rightarrow> (None, s1)))"

subsection \<open>Example stores\<close>

text \<open>
  Concrete stores and records for the closed theorems below: a store from its
  documents, blobs and broken blob names, with an empty log; a document that expires
  at time 100; a part record.
\<close>

definition exStore :: "storedDoc list \<Rightarrow> (string \<rightharpoonup> content) \<Rightarrow> string set \<Rightarrow> Store" where
  "exStore c b k = \<lparr>uploadc = c, blobs = b, broken = k, logged = []\<rparr>"

definition exDoc :: "string \<Rightarrow> string option \<Rightarrow> PartInfo option list \<Rightarrow> storedDoc" where
  "exDoc uploadId h ps = \<lparr>doc_id = uploadId, doc_hash = h, doc_expires = 100, doc_parts = ps\<rparr>"

definition exPart :: "string \<Rightarrow> int \<Rightarrow> bool \<Rightarrow> PartInfo" where
  "exPart h n c = \<lparr>PartInfo.Hash = h, Size = n, Complete = c\<rparr>"


subsection \<open>Notions used in the statements\<close>

text \<open>
  The names of the part blobs of an upload whose part array is \<open>ps\<close>, counted from
  index \<open>i\<close>: the names that the loop of \<^verbatim>\<open>removeUpload\<close> passes to
  \<^verbatim>\<open>Remove\<close>.
\<close>

fun partBlobNames :: "string \<Rightarrow> int \<Rightarrow> 'a list \<Rightarrow> string set" where
  "partBlobNames uploadId i [] = {}"
| "partBlobNames uploadId i (p # ps) = insert (uploadPartName uploadId i) (partBlobNames uploadId (i + 1) ps)"

text \<open>
  Every part record of the array has a size that the guards at the head of
  \<^verbatim>\<open>PutPart\<close> let through: \<^verbatim>\<open>size > 0\<close> and \<^verbatim>\<open>size < maxPartSize\<close>.
\<close>

definition partSizesInRange :: "PartInfo option list \<Rightarrow> bool" where
  "partSizesInRange ps = list_all (\<lambda>p. case p of None \<Rightarrow> True | Some q \<Rightarrow> 0 < Size q \<and> Size q < maxPartSize) ps"

text \<open>
  The stores that the operations of the package produce from an empty collection,
  with any backing store, whose failures may come and go; and two properties that all
  of them have: the collection holds one document for each id, and every part record
  has a size in the range that \<^verbatim>\<open>PutPart\<close> accepts.
\<close>

inductive reachable :: "Store \<Rightarrow> bool" where
  initial: "reachable \<lparr>uploadc = [], blobs = b, broken = k, logged = []\<rparr>"
| new_upload: "reachable s \<Longrightarrow> reachable (snd (NewUpload s uploadId expires))"
| put_part: "reachable s \<Longrightarrow> reachable (snd (PutPart s uploadId part r psize hash))"
| finish_upload: "reachable s \<Longrightarrow> reachable (snd (FinishUpload hexsum s uploadId parts))"
| remove_upload: "reachable s \<Longrightarrow> reachable (snd (RemoveUpload s uploadId))"
| remove_expired: "reachable s \<Longrightarrow> reachable (snd (RemoveExpiredUploads itErr now s))"
| backend: "reachable s \<Longrightarrow> reachable (s\<lparr>broken := k\<rparr>)"

definition storeInv :: "Store \<Rightarrow> bool" where
  "storeInv s =
     (distinct (map doc_id (uploadc s))
      \<and> list_all (\<lambda>d. partSizesInRange (doc_parts d)) (uploadc s))"

text \<open>
  A third property of these stores: a document that has a hash, whatever the hash,
  has only part records that are complete, and when it has exactly one part record
  its hash is the hash of that part.
\<close>

definition allComplete :: "PartInfo option list \<Rightarrow> bool" where
  "allComplete ps = list_all (\<lambda>p. case p of None \<Rightarrow> False | Some q \<Rightarrow> Complete q) ps"

definition finishedDocInv :: "storedDoc \<Rightarrow> bool" where
  "finishedDocInv d =
     (case doc_hash d of
        None \<Rightarrow> True
      | Some h \<Rightarrow> allComplete (doc_parts d)
                  \<and> (case doc_parts d of [Some q] \<Rightarrow> h = PartInfo.Hash q | _ \<Rightarrow> True))"

definition finishedInv :: "Store \<Rightarrow> bool" where
  "finishedInv s = (distinct (map doc_id (uploadc s)) \<and> list_all finishedDocInv (uploadc s))"

text \<open>
  A stand-in for the hash in closed examples: one decimal digit for each byte.
\<close>

definition exHexsum :: "content \<Rightarrow> string" where
  "exHexsum w = map (\<lambda>b. digitChar (unat b mod 10)) w"

section \<open>Lemmas\<close>

text \<open>The definitions that a closed example unfolds.\<close>

lemmas model_defs =
  NewUpload_def getUpload_def coll_FindId_def coll_Insert_def encodeDoc_def decodeDoc_def
  PutPart_def checkPartSizes_def initializePart_def putAndMarkComplete_def
  Put_def Open_def Remove_def setPartElem_def partElemAbsent_def
  uploadPartName_def fmt_d_def decimal.simps digitChar_def
  maxParts_def minPartSize_def maxPartSize_def
  FinishUpload_def setUploadHash_def wholeHash_def copyBlob_def
  removeUpload_def RemoveUpload_def RemoveExpiredUploads_def expiredUploads_def
  exStore_def exDoc_def exPart_def exHexsum_def


subsection \<open>The collection\<close>

lemma coll_FindId_Some: "coll_FindId uploadId c = Some d \<Longrightarrow> d \<in> set c \<and> doc_id d = uploadId"
  unfolding coll_FindId_def by (induction c) (auto split: if_splits)

lemma coll_FindId_None: "(coll_FindId uploadId c = None) = (uploadId \<notin> doc_id ` set c)"
  unfolding coll_FindId_def by (induction c) auto

lemma map_other_ids: "uploadId \<notin> doc_id ` set c \<Longrightarrow> map (\<lambda>x. if doc_id x = uploadId then upd x else x) c = c"
  by (induction c) auto

lemma filter_other_ids: "uploadId \<notin> doc_id ` set c \<Longrightarrow> filter (\<lambda>x. doc_id x \<noteq> uploadId) c = c"
  by (induction c) auto

lemma coll_Update_distinct:
  "distinct (map doc_id c) \<Longrightarrow>
   coll_Update (\<lambda>d. doc_id d = uploadId \<and> P d) upd c =
     (case coll_FindId uploadId c of
        None \<Rightarrow> None
      | Some d \<Rightarrow> if P d then Some (map (\<lambda>x. if doc_id x = uploadId then upd x else x) c) else None)"
proof (induction c)
  case Nil
  then show ?case by (simp add: coll_FindId_def)
next
  case (Cons d c)
  show ?case
  proof (cases "doc_id d = uploadId")
    case True
    with Cons.prems have "uploadId \<notin> doc_id ` set c" by auto
    then have "map (\<lambda>x. if doc_id x = uploadId then upd x else x) c = c"
      by (rule map_other_ids)
    moreover from \<open>uploadId \<notin> doc_id ` set c\<close> have "coll_Update (\<lambda>d. doc_id d = uploadId \<and> P d) upd c = None"
      by (induction c) auto
    ultimately show ?thesis using True by (simp add: coll_FindId_def)
  next
    case False
    with Cons show ?thesis by (simp add: coll_FindId_def split: option.splits)
  qed
qed

lemma coll_UpdateId_distinct:
  "distinct (map doc_id c) \<Longrightarrow>
   coll_Update (\<lambda>d. doc_id d = uploadId) upd c =
     (case coll_FindId uploadId c of
        None \<Rightarrow> None
      | Some d \<Rightarrow> Some (map (\<lambda>x. if doc_id x = uploadId then upd x else x) c))"
  using coll_Update_distinct [where P = "\<lambda>d. True"] by simp

lemma coll_Remove_distinct:
  "distinct (map doc_id c) \<Longrightarrow>
   coll_Remove (\<lambda>d. doc_id d = uploadId \<and> P d) c =
     (case coll_FindId uploadId c of
        None \<Rightarrow> None
      | Some d \<Rightarrow> if P d then Some (filter (\<lambda>x. doc_id x \<noteq> uploadId) c) else None)"
proof (induction c)
  case Nil
  then show ?case by (simp add: coll_FindId_def)
next
  case (Cons d c)
  show ?case
  proof (cases "doc_id d = uploadId")
    case True
    with Cons.prems have "uploadId \<notin> doc_id ` set c" by auto
    then have "filter (\<lambda>x. doc_id x \<noteq> uploadId) c = c"
      by (rule filter_other_ids)
    moreover from \<open>uploadId \<notin> doc_id ` set c\<close> have "coll_Remove (\<lambda>d. doc_id d = uploadId \<and> P d) c = None"
      by (induction c) auto
    ultimately show ?thesis using True by (simp add: coll_FindId_def)
  next
    case False
    with Cons show ?thesis by (simp add: coll_FindId_def split: option.splits)
  qed
qed

lemma coll_RemoveId_distinct:
  "distinct (map doc_id c) \<Longrightarrow>
   coll_Remove (\<lambda>d. doc_id d = uploadId) c =
     (case coll_FindId uploadId c of
        None \<Rightarrow> None
      | Some d \<Rightarrow> Some (filter (\<lambda>x. doc_id x \<noteq> uploadId) c))"
  using coll_Remove_distinct [where P = "\<lambda>d. True"] by simp

lemma coll_FindId_map:
  "(\<And>x. doc_id (upd x) = doc_id x) \<Longrightarrow>
   coll_FindId uploadId (map (\<lambda>x. if doc_id x = u then upd x else x) c) =
     map_option (\<lambda>x. if doc_id x = u then upd x else x) (coll_FindId uploadId c)"
  unfolding coll_FindId_def by (induction c) auto

lemma coll_FindId_filter_same:
  "coll_FindId uploadId (filter (\<lambda>x. doc_id x \<noteq> uploadId) c) = None"
  unfolding coll_FindId_def by (induction c) auto

lemma distinct_map_ids:
  "(\<And>x. doc_id (f x) = doc_id x) \<Longrightarrow> distinct (map doc_id (map f c)) = distinct (map doc_id c)"
  by (simp add: comp_def)

lemma coll_FindId_filter_other:
  "uploadId \<notin> X \<Longrightarrow> coll_FindId uploadId (filter (\<lambda>x. doc_id x \<notin> X) c) = coll_FindId uploadId c"
  unfolding coll_FindId_def by (induction c) auto

lemma coll_FindId_distinct:
  "distinct (map doc_id c) \<Longrightarrow> d \<in> set c \<Longrightarrow> coll_FindId (doc_id d) c = Some d"
  unfolding coll_FindId_def by (induction c) auto

lemma Id_decodeDoc: "Id (decodeDoc d) = doc_id d"
  by (simp add: decodeDoc_def)

subsection \<open>Part arrays and the size check\<close>

lemma setPartElem_nth: "k < length (setPartElem k v ps) \<and> setPartElem k v ps ! k = Some v"
  by (auto simp: setPartElem_def nth_append)

lemma setPartElem_length: "length (setPartElem k v ps) = (if k < length ps then length ps else Suc k)"
  by (simp add: setPartElem_def)

lemma setPartElem_twice: "setPartElem k v (setPartElem k w ps) = setPartElem k v ps"
  by (auto simp: setPartElem_def list_update_append)

lemma checkPartSizesLoop_replicate:
  "checkPartSizesLoop i (replicate n None @ ps) part = checkPartSizesLoop (i + int n) ps part"
  by (induction n arbitrary: i) (auto simp: algebra_simps)

lemma setPartElem_Cons_Suc: "setPartElem (Suc k) v (p # ps) = p # setPartElem k v ps"
  by (simp add: setPartElem_def)

lemma checkPartSizesLoop_setPartElem:
  "checkPartSizesLoop i (setPartElem k v ps) (i + int k) = checkPartSizesLoop i ps (i + int k)"
proof (induction ps arbitrary: i k)
  case Nil
  show ?case
    by (simp add: setPartElem_def checkPartSizesLoop_replicate)
next
  case (Cons p ps)
  show ?case
  proof (cases k)
    case 0
    then show ?thesis by (simp add: setPartElem_def split: option.splits)
  next
    case (Suc k')
    have "checkPartSizesLoop (i + 1) (setPartElem k' v ps) ((i + 1) + int k')
        = checkPartSizesLoop (i + 1) ps ((i + 1) + int k')"
      by (rule Cons.IH)
    moreover have "(i + 1) + int k' = i + int k" using Suc by simp
    ultimately show ?thesis
      using Suc by (simp add: setPartElem_Cons_Suc split: option.splits)
  qed
qed

lemma checkPartSizes_setPartElem:
  assumes "0 \<le> part" and "checkPartSizes ps part psize = None"
  shows "checkPartSizes (setPartElem (nat part) v ps) part psize = None"
proof -
  have loop: "checkPartSizesLoop 0 (setPartElem (nat part) v ps) part = checkPartSizesLoop 0 ps part"
    using checkPartSizesLoop_setPartElem [of 0 "nat part" v ps] assms(1) by simp
  from assms(2) have a: "\<not> (0 \<le> part \<and> part < int (length ps) - 1 \<and> psize < minPartSize)"
    and b: "checkPartSizesLoop 0 ps part = None"
    by (auto simp: checkPartSizes_def split: if_splits)
  from a assms(1) have "\<not> (0 \<le> part \<and> part < int (length (setPartElem (nat part) v ps)) - 1 \<and> psize < minPartSize)"
    by (auto simp: setPartElem_length)
  with loop b show ?thesis by (simp add: checkPartSizes_def)
qed

lemma checkPartSizesLoop_all_iff:
  "i \<ge> 0 \<Longrightarrow> (checkPartSizesLoop i ps (- 1) = None) =
     list_all (\<lambda>p. case p of None \<Rightarrow> True | Some q \<Rightarrow> minPartSize \<le> Size q) ps"
  by (induction ps arbitrary: i) (auto split: option.splits)

lemma checkPartSizes_finish_iff:
  "(checkPartSizes ps (- 1) 0 = None) =
     list_all (\<lambda>p. case p of None \<Rightarrow> True | Some q \<Rightarrow> minPartSize \<le> Size q) ps"
  by (simp add: checkPartSizes_def checkPartSizesLoop_all_iff)

subsection \<open>PutPart\<close>

lemma PutPart_complete_part:
  assumes "0 \<le> part" "part < maxParts" "0 < psize" "psize < maxPartSize"
    and "getUpload s uploadId = Inr udoc"
    and "checkPartSizes (uploadDoc.Parts udoc) part psize = None"
    and "nat part < length (uploadDoc.Parts udoc)"
    and "uploadDoc.Parts udoc ! nat part = Some p"
    and "PartInfo.Hash p = hash" and "Complete p"
  shows "PutPart s uploadId part r psize hash = (None, s)"
proof -
  from assms(1,7) have "part < int (length (uploadDoc.Parts udoc))" by linarith
  with assms show ?thesis by (simp add: PutPart_def)
qed

lemma getUpload_after_update:
  assumes "distinct (map doc_id (uploadc s))"
    and "coll_FindId uploadId (uploadc s) = Some d"
    and "\<And>x. doc_id (upd x) = doc_id x"
    and "uploadc s' = map (\<lambda>x. if doc_id x = uploadId then upd x else x) (uploadc s)"
  shows "getUpload s' uploadId = Inr (decodeDoc (upd d))"
proof -
  from assms(2) have "doc_id d = uploadId" by (simp add: coll_FindId_Some)
  then show ?thesis
    using assms(2,4) coll_FindId_map [of upd uploadId uploadId "uploadc s", OF assms(3)]
    by (simp add: getUpload_def)
qed

lemma putAndMarkComplete_success:
  assumes "distinct (map doc_id (uploadc s))"
    and "putAndMarkComplete s uploadId part r psize hash = (None, s')"
  shows "\<exists>d. coll_FindId uploadId (uploadc s) = Some d \<and>
             uploadc s' = map (\<lambda>x. if doc_id x = uploadId
                 then x\<lparr>doc_parts := setPartElem (nat part) \<lparr>PartInfo.Hash = hash, Size = psize, Complete = True\<rparr> (doc_parts x)\<rparr>
                 else x) (uploadc s)"
  using assms
  by (auto simp: putAndMarkComplete_def Put_def coll_UpdateId_distinct split: if_splits option.splits)

lemma initializePart_success:
  assumes "distinct (map doc_id (uploadc s))"
    and "initializePart s uploadId part hash psize = (None, s1)"
  shows "\<exists>d. coll_FindId uploadId (uploadc s) = Some d \<and>
             uploadc s1 = map (\<lambda>x. if doc_id x = uploadId
                 then x\<lparr>doc_parts := setPartElem (nat part) \<lparr>PartInfo.Hash = hash, Size = psize, Complete = False\<rparr> (doc_parts x)\<rparr>
                 else x) (uploadc s)"
  using assms
  by (auto simp: initializePart_def coll_Update_distinct split: if_splits option.splits)

lemma PutPart_after_mark:
  assumes dist: "distinct (map doc_id (uploadc s))"
    and rng: "0 \<le> part" "part < maxParts" "0 < psize" "psize < maxPartSize"
    and found: "coll_FindId uploadId (uploadc s) = Some d"
    and chk: "checkPartSizes (doc_parts d) part psize = None"
    and put: "putAndMarkComplete s uploadId part r psize hash = (None, s')"
  shows "PutPart s' uploadId part r psize hash = (None, s')"
proof -
  let ?v = "\<lparr>PartInfo.Hash = hash, Size = psize, Complete = True\<rparr>"
  let ?upd = "\<lambda>x. x\<lparr>doc_parts := setPartElem (nat part) ?v (doc_parts x)\<rparr>"
  from putAndMarkComplete_success [OF dist put] found
  have upd: "uploadc s' = map (\<lambda>x. if doc_id x = uploadId then ?upd x else x) (uploadc s)"
    by auto
  have get: "getUpload s' uploadId = Inr (decodeDoc (?upd d))"
    by (rule getUpload_after_update [OF dist found _ upd]) simp
  have parts: "uploadDoc.Parts (decodeDoc (?upd d)) = setPartElem (nat part) ?v (doc_parts d)"
    by (simp add: decodeDoc_def)
  show ?thesis
  proof (rule PutPart_complete_part [OF rng get])
    show "checkPartSizes (uploadDoc.Parts (decodeDoc (?upd d))) part psize = None"
      unfolding parts by (rule checkPartSizes_setPartElem [OF rng(1) chk])
    show "nat part < length (uploadDoc.Parts (decodeDoc (?upd d)))"
      unfolding parts by (simp add: setPartElem_nth)
    show "uploadDoc.Parts (decodeDoc (?upd d)) ! nat part = Some ?v"
      unfolding parts by (simp add: setPartElem_nth)
  qed simp_all
qed

text \<open>
  The same call of \<^verbatim>\<open>PutPart\<close>, made again on the store that a successful call
  left, returns nil and changes nothing.
\<close>

lemma PutPart_repeated_at_once:
  assumes dist: "distinct (map doc_id (uploadc s))"
    and ok: "PutPart s uploadId part r psize hash = (None, s')"
  shows "PutPart s' uploadId part r psize hash = (None, s')"
proof -
  from ok have rng: "0 \<le> part" "part < maxParts" "0 < psize" "psize < maxPartSize"
    by (auto simp: PutPart_def split: if_splits)
  from ok rng obtain udoc where get: "getUpload s uploadId = Inr udoc"
    by (cases "getUpload s uploadId") (auto simp: PutPart_def)
  then obtain d where found: "coll_FindId uploadId (uploadc s) = Some d"
    and udoc: "udoc = decodeDoc d"
    by (auto simp: getUpload_def split: option.splits)
  have parts: "uploadDoc.Parts udoc = doc_parts d"
    by (simp add: udoc decodeDoc_def)
  from ok rng get have chk: "checkPartSizes (doc_parts d) part psize = None"
    by (cases "checkPartSizes (uploadDoc.Parts udoc) part psize") (auto simp: PutPart_def parts)
  show ?thesis
  proof (cases "part < int (length (doc_parts d)) \<and> doc_parts d ! nat part \<noteq> None")
    case True
    then obtain p where p: "doc_parts d ! nat part = Some p" by auto
    from ok rng get chk True p have h: "PartInfo.Hash p = hash"
      by (auto simp: PutPart_def parts split: if_splits)
    show ?thesis
    proof (cases "Complete p")
      case True
      with ok rng get chk \<open>part < int (length (doc_parts d)) \<and> doc_parts d ! nat part \<noteq> None\<close> p h
      have "s' = s" by (simp add: PutPart_def parts)
      with ok show ?thesis by simp
    next
      case False
      with ok rng get chk \<open>part < int (length (doc_parts d)) \<and> doc_parts d ! nat part \<noteq> None\<close> p h
      have "putAndMarkComplete s uploadId part r psize hash = (None, s')"
        by (simp add: PutPart_def parts)
      then show ?thesis
        by (rule PutPart_after_mark [OF dist rng found chk])
    qed
  next
    case False
    with ok rng get chk obtain s1 where
      init: "initializePart s uploadId part hash psize = (None, s1)"
      and put: "putAndMarkComplete s1 uploadId part r psize hash = (None, s')"
      by (auto simp: PutPart_def parts split: if_splits prod.splits option.splits)
    let ?v0 = "\<lparr>PartInfo.Hash = hash, Size = psize, Complete = False\<rparr>"
    let ?upd0 = "\<lambda>x. x\<lparr>doc_parts := setPartElem (nat part) ?v0 (doc_parts x)\<rparr>"
    from initializePart_success [OF dist init] found
    have upd0: "uploadc s1 = map (\<lambda>x. if doc_id x = uploadId then ?upd0 x else x) (uploadc s)"
      by auto
    have dist1: "distinct (map doc_id (uploadc s1))"
      using dist unfolding upd0 by (simp add: comp_def if_distrib cong: if_cong)
    from found have "doc_id d = uploadId" by (simp add: coll_FindId_Some)
    then have found1: "coll_FindId uploadId (uploadc s1) = Some (?upd0 d)"
      using found coll_FindId_map [of ?upd0 uploadId uploadId "uploadc s"]
      unfolding upd0 by simp
    have chk1: "checkPartSizes (doc_parts (?upd0 d)) part psize = None"
      using checkPartSizes_setPartElem [OF rng(1) chk] by simp
    show ?thesis
      by (rule PutPart_after_mark [OF dist1 rng found1 chk1 put])
  qed
qed

subsection \<open>FinishUpload\<close>

lemma checkFinishParts_None_iff:
  "length ps = length pus \<Longrightarrow>
   (checkFinishParts i ps pus = None) =
     list_all2 (\<lambda>p pu. \<exists>u. pu = Some u \<and> Complete u \<and> Part.Hash p = PartInfo.Hash u) ps pus"
  by (induction i ps pus rule: checkFinishParts.induct) (auto split: option.splits)

lemma indexSizes_Some:
  "list_all2 (\<lambda>p pu. \<exists>u. pu = Some u \<and> Q p u) ps pus \<Longrightarrow> \<exists>ws. indexSizes pus = Some ws"
  by (induction ps pus rule: list_all2_induct) auto

lemma uint32_exact:
  assumes "0 < x" and "x < maxPartSize"
  shows "uint (word_of_int x :: 32 word) = x"
proof -
  from assms have "0 \<le> x" and "x < 2 ^ 32" by (simp_all add: maxPartSize_def)
  then have "x mod 2 ^ 32 = x" by simp
  then show ?thesis by (simp add: uint_word_of_int)
qed

lemma indexSizes_exact:
  "partSizesInRange ps \<Longrightarrow> indexSizes ps = Some ws \<Longrightarrow>
   length ws = length ps \<and> (\<forall>i<length ps. \<exists>q. ps ! i = Some q \<and> uint (ws ! i) = Size q)"
proof (induction ps arbitrary: ws rule: indexSizes.induct)
  case 1
  then show ?case by simp
next
  case (2 ps)
  then show ?case by simp
next
  case (3 p ps)
  from "3.prems"(2) obtain ws' where ws': "indexSizes ps = Some ws'"
    and ws: "ws = word_of_int (Size p) # ws'"
    by (auto split: option.splits)
  from "3.prems"(1) have rng: "0 < Size p" "Size p < maxPartSize" and rest: "partSizesInRange ps"
    by (simp_all add: partSizesInRange_def)
  from "3.IH" [OF rest ws'] have ih: "length ws' = length ps"
    "\<forall>i<length ps. \<exists>q. ps ! i = Some q \<and> uint (ws' ! i) = Size q" by simp_all
  show ?case
  proof (intro conjI allI impI)
    show "length ws = length (Some p # ps)" using ih(1) ws by simp
  next
    fix i assume "i < length (Some p # ps)"
    then show "\<exists>q. (Some p # ps) ! i = Some q \<and> uint (ws ! i) = Size q"
      using ih(2) ws uint32_exact [OF rng] by (cases i) auto
  qed
qed

lemma FinishUpload_success:
  assumes "FinishUpload hexsum s uploadId parts = (Inr (idx, h), s')"
  shows "\<exists>udoc ws. getUpload s uploadId = Inr udoc
           \<and> length parts = length (uploadDoc.Parts udoc)
           \<and> checkFinishParts 0 parts (uploadDoc.Parts udoc) = None
           \<and> checkPartSizes (uploadDoc.Parts udoc) (- 1) 0 = None
           \<and> setUploadHash hexsum s uploadId udoc = (Inr h, s')
           \<and> indexSizes (uploadDoc.Parts udoc) = Some ws
           \<and> idx = \<lparr>Sizes = ws\<rparr>"
  using assms
  by (auto simp: FinishUpload_def split: sum.splits if_splits option.splits prod.splits)





lemma coll_UpdateId_found:
  "coll_FindId uploadId c = Some d \<Longrightarrow> \<exists>c'. coll_Update (\<lambda>x. doc_id x = uploadId) upd c = Some c'"
  unfolding coll_FindId_def by (induction c) (auto split: if_splits)

lemma checkFinishParts_error:
  "length ps = length pus \<Longrightarrow> checkFinishParts i ps pus = Some e \<Longrightarrow>
   (\<exists>j. e = PartNotUploadedYet j) \<or> (\<exists>j a b. e = HashMismatchOnPart j a b)"
  by (induction i ps pus rule: checkFinishParts.induct) (auto split: option.splits if_splits)

lemma FinishUpload_mismatch_error:
  assumes get: "getUpload s uploadId = Inr udoc"
    and mismatch: "\<not> list_all2 (\<lambda>p pu. \<exists>u. pu = Some u \<and> Complete u \<and> Part.Hash p = PartInfo.Hash u)
                      parts (uploadDoc.Parts udoc)"
  shows "\<exists>e. FinishUpload hexsum s uploadId parts = (Inl e, s)
           \<and> (e = PartCountMismatch (int (length parts)) (int (length (uploadDoc.Parts udoc)))
              \<or> (\<exists>j. e = PartNotUploadedYet j) \<or> (\<exists>j a b. e = HashMismatchOnPart j a b))"
proof (cases "length parts = length (uploadDoc.Parts udoc)")
  case False
  with get show ?thesis by (simp add: FinishUpload_def)
next
  case True
  with mismatch obtain e where e: "checkFinishParts 0 parts (uploadDoc.Parts udoc) = Some e"
    using checkFinishParts_None_iff [OF True, of 0] by (cases "checkFinishParts 0 parts (uploadDoc.Parts udoc)") auto
  from checkFinishParts_error [OF True e] get True e show ?thesis
    by (simp add: FinishUpload_def)
qed

lemma FinishUpload_succeeds_iff:
  assumes get: "getUpload s uploadId = Inr udoc"
    and hash: "uploadDoc.Hash udoc \<noteq> [] \<or> (\<exists>h. wholeHash hexsum s uploadId udoc = Inr h)"
  shows "(\<exists>idx h s'. FinishUpload hexsum s uploadId parts = (Inr (idx, h), s'))
       = (list_all2 (\<lambda>p pu. \<exists>u. pu = Some u \<and> Complete u \<and> Part.Hash p = PartInfo.Hash u)
            parts (uploadDoc.Parts udoc)
          \<and> list_all (\<lambda>p. case p of None \<Rightarrow> True | Some q \<Rightarrow> minPartSize \<le> Size q)
              (uploadDoc.Parts udoc))"
    (is "?ok = (?match \<and> ?sizes)")
proof
  assume ?ok
  then obtain idx h s' where f: "FinishUpload hexsum s uploadId parts = (Inr (idx, h), s')" by blast
  from FinishUpload_success [OF f] get
  have len: "length parts = length (uploadDoc.Parts udoc)"
    and cf: "checkFinishParts 0 parts (uploadDoc.Parts udoc) = None"
    and cs: "checkPartSizes (uploadDoc.Parts udoc) (- 1) 0 = None" by auto
  from cf have ?match unfolding checkFinishParts_None_iff [OF len] .
  moreover from cs have ?sizes unfolding checkPartSizes_finish_iff .
  ultimately show "?match \<and> ?sizes" ..
next
  assume a: "?match \<and> ?sizes"
  then have len: "length parts = length (uploadDoc.Parts udoc)"
    by (blast dest: list_all2_lengthD)
  from a have cf: "checkFinishParts 0 parts (uploadDoc.Parts udoc) = None"
    unfolding checkFinishParts_None_iff [OF len] by simp
  from a have cs: "checkPartSizes (uploadDoc.Parts udoc) (- 1) 0 = None"
    unfolding checkPartSizes_finish_iff by simp
  from a obtain ws where ws: "indexSizes (uploadDoc.Parts udoc) = Some ws"
    using indexSizes_Some [of "\<lambda>p u. Complete u \<and> Part.Hash p = PartInfo.Hash u" parts "uploadDoc.Parts udoc"]
    by blast
  from get obtain d where d: "coll_FindId uploadId (uploadc s) = Some d"
    by (auto simp: getUpload_def split: option.splits)
  have "\<exists>h s'. setUploadHash hexsum s uploadId udoc = (Inr h, s')"
  proof (cases "uploadDoc.Hash udoc \<noteq> []")
    case True
    then show ?thesis by (simp add: setUploadHash_def)
  next
    case False
    with hash obtain h where h: "wholeHash hexsum s uploadId udoc = Inr h" by blast
    from coll_UpdateId_found [OF d, of "\<lambda>d. d\<lparr>doc_hash := Some h\<rparr>"] obtain c'
      where "coll_Update (\<lambda>x. doc_id x = uploadId) (\<lambda>d. d\<lparr>doc_hash := Some h\<rparr>) (uploadc s) = Some c'"
      by blast
    with False h show ?thesis by (simp add: setUploadHash_def)
  qed
  then obtain h s' where "setUploadHash hexsum s uploadId udoc = (Inr h, s')" by blast
  with get len cf cs ws have "FinishUpload hexsum s uploadId parts = (Inr (\<lparr>Sizes = ws\<rparr>, h), s')"
    by (simp add: FinishUpload_def)
  then show ?ok by blast
qed

subsection \<open>Removal\<close>

lemma partBlobNames_indexed:
  "partBlobNames uploadId i ps = {uploadPartName uploadId (i + int j) | j. j < length ps}"
proof (induction ps arbitrary: i)
  case Nil
  show ?case by simp
next
  case (Cons p ps)
  have "{uploadPartName uploadId (i + int j) | j. j < length (p # ps)}
      = insert (uploadPartName uploadId i) {uploadPartName uploadId (i + 1 + int j) | j. j < length ps}"
    (is "?L = ?R")
  proof
    show "?L \<subseteq> ?R"
    proof
      fix n assume "n \<in> ?L"
      then obtain j where j: "j < length (p # ps)" "n = uploadPartName uploadId (i + int j)" by blast
      show "n \<in> ?R"
      proof (cases j)
        case 0 with j show ?thesis by simp
      next
        case (Suc j')
        with j have "j' < length ps" "n = uploadPartName uploadId (i + 1 + int j')"
          by (simp_all add: algebra_simps)
        then show ?thesis by blast
      qed
    qed
    show "?R \<subseteq> ?L"
    proof
      fix n assume "n \<in> ?R"
      then consider "n = uploadPartName uploadId i"
        | j where "j < length ps" "n = uploadPartName uploadId (i + 1 + int j)" by blast
      then show "n \<in> ?L"
      proof cases
        case 1
        then have "0 < length (p # ps)" "n = uploadPartName uploadId (i + int 0)" by simp_all
        then show ?thesis by blast
      next
        case 2
        then have "Suc j < length (p # ps)" "n = uploadPartName uploadId (i + int (Suc j))"
          by (simp_all add: algebra_simps)
        then show ?thesis by blast
      qed
    qed
  qed
  with Cons.IH [of "i + 1"] show ?case by simp
qed

lemma Remove_cases:
  "Remove s name =
     (if name \<in> broken s then (Some (BackendFailure name), s)
      else if blobs s name = None then (Some (BlobNotFound name), s)
      else (None, s\<lparr>blobs := (blobs s)(name := None)\<rparr>))"
  by (auto simp: Remove_def split: option.splits)

lemma removePartBlobs_effect:
  "removePartBlobs s uploadId i ps removeErr = (r, s') \<Longrightarrow>
     uploadc s' = uploadc s \<and> broken s' = broken s
   \<and> (\<forall>n. blobs s' n =
          (if n \<in> partBlobNames uploadId i ps - broken s then None else blobs s n))
   \<and> set (logged s') = set (logged s) \<union>
          {(n, BackendFailure n) | n. n \<in> partBlobNames uploadId i ps \<inter> broken s}
   \<and> (r = None) = (removeErr = None \<and> partBlobNames uploadId i ps \<inter> broken s = {})
   \<and> (\<forall>e. removeErr = None \<and> r = Some e \<longrightarrow>
          (\<exists>n \<in> partBlobNames uploadId i ps \<inter> broken s. e = BackendFailure n))
   \<and> (removeErr \<noteq> None \<longrightarrow> r = removeErr)"
proof (induction ps arbitrary: s i removeErr)
  case Nil
  then show ?case by auto
next
  case (Cons p ps)
  let ?n = "uploadPartName uploadId i"
  consider (broken) "?n \<in> broken s"
    | (absent) "?n \<notin> broken s" "blobs s ?n = None"
    | (present) "?n \<notin> broken s" "blobs s ?n \<noteq> None" by blast
  then show ?case
  proof cases
    case broken
    let ?s1 = "s\<lparr>logged := (?n, BackendFailure ?n) # logged s\<rparr>"
    let ?re = "if removeErr = None then Some (BackendFailure ?n) else removeErr"
    from Cons.prems broken have "removePartBlobs ?s1 uploadId (i + 1) ps ?re = (r, s')"
      by (simp add: Remove_cases)
    from Cons.IH [OF this] broken show ?thesis
      by (auto split: if_splits)
  next
    case absent
    from Cons.prems absent have "removePartBlobs s uploadId (i + 1) ps removeErr = (r, s')"
      by (simp add: Remove_cases)
    from Cons.IH [OF this] absent show ?thesis
      by (auto split: if_splits)
  next
    case present
    let ?s1 = "s\<lparr>blobs := (blobs s)(?n := None)\<rparr>"
    from Cons.prems present have "removePartBlobs ?s1 uploadId (i + 1) ps removeErr = (r, s')"
      by (auto simp: Remove_cases)
    from Cons.IH [OF this] present show ?thesis
      by (auto split: if_splits)
  qed
qed

lemma removeUpload_unfinished_deleted:
  assumes dist: "distinct (map doc_id (uploadc s))"
    and unf: "uploadDoc.Hash udoc = []"
    and found: "coll_FindId (Id udoc) (uploadc s) = Some d" and nohash: "doc_hash d = None"
  shows "removeUpload s udoc =
     (case removePartBlobs (s\<lparr>uploadc := filter (\<lambda>x. doc_id x \<noteq> Id udoc) (uploadc s)\<rparr>)
              (Id udoc) 0 (uploadDoc.Parts udoc) None of
        (None, s3) \<Rightarrow> (None, s3)
      | (Some e, s3) \<Rightarrow> (Some (FailedToRemoveSomeData e), s3))"
  using unf found nohash
  by (simp add: removeUpload_def coll_Remove_distinct [OF dist])

lemma removeUpload_keeps_blobs:
  assumes dist: "distinct (map doc_id (uploadc s))"
    and lost: "uploadDoc.Hash udoc \<noteq> [] \<or> (\<exists>d h. coll_FindId (Id udoc) (uploadc s) = Some d \<and> doc_hash d = Some h)"
  shows "removeUpload s udoc = (None, s\<lparr>uploadc := filter (\<lambda>x. doc_id x \<noteq> Id udoc) (uploadc s)\<rparr>)"
proof (cases "coll_FindId (Id udoc) (uploadc s)")
  case None
  then have "Id udoc \<notin> doc_id ` set (uploadc s)" by (simp add: coll_FindId_None)
  then have "filter (\<lambda>x. doc_id x \<noteq> Id udoc) (uploadc s) = uploadc s" by (rule filter_other_ids)
  with None lost show ?thesis
    by (auto simp: removeUpload_def coll_Remove_distinct [OF dist] coll_RemoveId_distinct [OF dist])
next
  case (Some d)
  with lost show ?thesis
    by (auto simp: removeUpload_def coll_Remove_distinct [OF dist] coll_RemoveId_distinct [OF dist])
qed

lemma removeUpload_uploadc:
  assumes dist: "distinct (map doc_id (uploadc s))" and res: "removeUpload s udoc = (r, s')"
  shows "uploadc s' = filter (\<lambda>x. doc_id x \<noteq> Id udoc) (uploadc s)"
proof (cases "uploadDoc.Hash udoc = [] \<and> (\<exists>d. coll_FindId (Id udoc) (uploadc s) = Some d \<and> doc_hash d = None)")
  case True
  then obtain d where d: "coll_FindId (Id udoc) (uploadc s) = Some d" "doc_hash d = None" by blast
  let ?s2 = "s\<lparr>uploadc := filter (\<lambda>x. doc_id x \<noteq> Id udoc) (uploadc s)\<rparr>"
  obtain r0 s3 where rp: "removePartBlobs ?s2 (Id udoc) 0 (uploadDoc.Parts udoc) None = (r0, s3)"
    by (cases "removePartBlobs ?s2 (Id udoc) 0 (uploadDoc.Parts udoc) None") blast
  from removeUpload_unfinished_deleted [OF dist _ d] True res rp have "s' = s3"
    by (auto split: option.splits)
  with removePartBlobs_effect [OF rp] show ?thesis by simp
next
  case False
  show ?thesis
  proof (cases "coll_FindId (Id udoc) (uploadc s)")
    case None
    then have "Id udoc \<notin> doc_id ` set (uploadc s)" by (simp add: coll_FindId_None)
    then have f: "filter (\<lambda>x. doc_id x \<noteq> Id udoc) (uploadc s) = uploadc s" by (rule filter_other_ids)
    from None res have "s' = s"
      by (auto simp: removeUpload_def coll_Remove_distinct [OF dist] coll_RemoveId_distinct [OF dist]
               split: if_splits)
    with f show ?thesis by simp
  next
    case (Some d)
    with False have "uploadDoc.Hash udoc \<noteq> [] \<or> (\<exists>d h. coll_FindId (Id udoc) (uploadc s) = Some d \<and> doc_hash d = Some h)"
      by (cases "doc_hash d") auto
    from removeUpload_keeps_blobs [OF dist this] res show ?thesis by simp
  qed
qed

lemma removeUploads_append:
  "removeUploads s (us1 @ us2) =
     (case removeUploads s us1 of
        (Some e, s1) \<Rightarrow> (Some e, s1)
      | (None, s1) \<Rightarrow> removeUploads s1 us2)"
  by (induction us1 arbitrary: s) (auto split: prod.splits option.splits)

lemma distinct_expiredUploads:
  "distinct (map doc_id (uploadc s)) \<Longrightarrow> distinct (map Id (expiredUploads s now))"
  by (simp add: expiredUploads_def comp_def Id_decodeDoc distinct_map_filter)

lemma removeUploads_uploadc:
  "distinct (map doc_id (uploadc s)) \<Longrightarrow> removeUploads s us = (r, s') \<Longrightarrow>
   \<exists>X. X \<subseteq> Id ` set us \<and> uploadc s' = filter (\<lambda>x. doc_id x \<notin> X) (uploadc s)"
proof (induction us arbitrary: s)
  case Nil
  then have "uploadc s' = filter (\<lambda>x. doc_id x \<notin> {}) (uploadc s)" by simp
  then show ?case by blast
next
  case (Cons u us)
  obtain r1 s1 where r1: "removeUpload s u = (r1, s1)" by (cases "removeUpload s u") blast
  from removeUpload_uploadc [OF Cons.prems(1) r1]
  have u1: "uploadc s1 = filter (\<lambda>x. doc_id x \<noteq> Id u) (uploadc s)" .
  show ?case
  proof (cases r1)
    case (Some e)
    with Cons.prems(2) r1 have "s' = s1" by simp
    with u1 have "uploadc s' = filter (\<lambda>x. doc_id x \<notin> {Id u}) (uploadc s)" by simp
    then show ?thesis by (intro exI [of _ "{Id u}"]) simp
  next
    case None
    with Cons.prems(2) r1 have rest: "removeUploads s1 us = (r, s')" by simp
    have "distinct (map doc_id (uploadc s1))"
      unfolding u1 using Cons.prems(1) by (simp add: distinct_map_filter)
    from Cons.IH [OF this rest] obtain X where X: "X \<subseteq> Id ` set us"
      "uploadc s' = filter (\<lambda>x. doc_id x \<notin> X) (uploadc s1)" by blast
    have "uploadc s' = filter (\<lambda>x. doc_id x \<notin> insert (Id u) X) (uploadc s)"
      unfolding X(2) u1 by (auto intro: filter_cong)
    with X(1) show ?thesis by (intro exI [of _ "insert (Id u) X"]) auto
  qed
qed

subsection \<open>Invariants of the store\<close>

lemma coll_Update_ids:
  "(\<And>x. doc_id (upd x) = doc_id x) \<Longrightarrow> coll_Update sel upd c = Some c' \<Longrightarrow>
   map doc_id c' = map doc_id c"
  by (induction c arbitrary: c') (auto split: if_splits option.splits)

lemma coll_Update_list_all:
  "coll_Update sel upd c = Some c' \<Longrightarrow> list_all P c \<Longrightarrow> (\<And>x. P x \<Longrightarrow> P (upd x)) \<Longrightarrow>
   list_all P c'"
  by (induction c arbitrary: c') (auto split: if_splits option.splits)

lemma partSizesInRange_setPartElem:
  "partSizesInRange ps \<Longrightarrow> 0 < Size v \<Longrightarrow> Size v < maxPartSize \<Longrightarrow>
   partSizesInRange (setPartElem k v ps)"
  by (auto simp: partSizesInRange_def setPartElem_def list_all_iff split: option.splits
           dest!: set_update_subset_insert [THEN subsetD])

lemma storeInv_update_parts:
  assumes "storeInv s" and "0 < Size v" and "Size v < maxPartSize"
    and "coll_Update sel (\<lambda>d. d\<lparr>doc_parts := setPartElem k v (doc_parts d)\<rparr>) (uploadc s) = Some c"
  shows "storeInv (s\<lparr>uploadc := c\<rparr>)"
proof -
  have "map doc_id c = map doc_id (uploadc s)"
    by (rule coll_Update_ids [OF _ assms(4)]) simp
  moreover have "list_all (\<lambda>d. partSizesInRange (doc_parts d)) c"
    using assms(1) by (intro coll_Update_list_all [OF assms(4)])
      (simp_all add: storeInv_def partSizesInRange_setPartElem [OF _ assms(2,3)])
  ultimately show ?thesis using assms(1) by (simp add: storeInv_def)
qed

lemma storeInv_blobs [simp]: "storeInv (s\<lparr>blobs := b\<rparr>) = storeInv s"
  by (simp add: storeInv_def)

lemma storeInv_broken [simp]: "storeInv (s\<lparr>broken := k\<rparr>) = storeInv s"
  by (simp add: storeInv_def)

lemma storeInv_logged [simp]: "storeInv (s\<lparr>logged := l\<rparr>) = storeInv s"
  by (simp add: storeInv_def)

lemma NewUpload_storeInv: "storeInv s \<Longrightarrow> storeInv (snd (NewUpload s uploadId expires))"
  by (auto simp: NewUpload_def coll_Insert_def storeInv_def encodeDoc_def coll_FindId_None
        partSizesInRange_def split: option.splits if_splits)

lemma initializePart_storeInv:
  "storeInv s \<Longrightarrow> 0 < psize \<Longrightarrow> psize < maxPartSize \<Longrightarrow>
   storeInv (snd (initializePart s uploadId part hash psize))"
  by (auto simp: initializePart_def split: option.splits intro!: storeInv_update_parts)

lemma putAndMarkComplete_storeInv:
  "storeInv s \<Longrightarrow> 0 < psize \<Longrightarrow> psize < maxPartSize \<Longrightarrow>
   storeInv (snd (putAndMarkComplete s uploadId part r psize hash))"
  by (auto simp: putAndMarkComplete_def Put_def split: option.splits prod.splits if_splits
        intro!: storeInv_update_parts [where s = "s\<lparr>blobs := b\<rparr>" for b, simplified])

lemma PutPart_storeInv: "storeInv s \<Longrightarrow> storeInv (snd (PutPart s uploadId part r psize hash))"
proof -
  assume inv: "storeInv s"
  show ?thesis
  proof (cases "0 < psize \<and> psize < maxPartSize")
    case False
    with inv show ?thesis by (auto simp: PutPart_def)
  next
    case True
    then have r: "0 < psize" "psize < maxPartSize" by simp_all
    note a = putAndMarkComplete_storeInv [OF _ r] initializePart_storeInv [OF _ r]
    have b: "storeInv (snd (putAndMarkComplete (snd (initializePart s uploadId part hash psize)) uploadId part r psize hash))"
      by (intro a inv)
    obtain e1 s1 where i: "initializePart s uploadId part hash psize = (e1, s1)"
      by (cases "initializePart s uploadId part hash psize") blast
    with a(2) [OF inv, of uploadId part hash] have s1: "storeInv s1" by simp
    from b i have b': "storeInv (snd (putAndMarkComplete s1 uploadId part r psize hash))" by simp
    show ?thesis
      using inv a(1) [OF inv, of uploadId part r hash] s1 b' i
      by (auto simp: PutPart_def split: sum.splits option.splits if_splits)
  qed
qed

lemma setUploadHash_storeInv: "storeInv s \<Longrightarrow> storeInv (snd (setUploadHash hexsum s uploadId udoc))"
proof -
  assume inv: "storeInv s"
  {
    fix h c
    assume u: "coll_Update (\<lambda>d. doc_id d = uploadId) (\<lambda>d. d\<lparr>doc_hash := Some h\<rparr>) (uploadc s) = Some c"
    have "map doc_id c = map doc_id (uploadc s)"
      by (rule coll_Update_ids [OF _ u]) simp
    moreover have "list_all (\<lambda>d. partSizesInRange (doc_parts d)) c"
      using inv by (intro coll_Update_list_all [OF u]) (simp_all add: storeInv_def)
    ultimately have "storeInv (s\<lparr>uploadc := c\<rparr>)" using inv by (simp add: storeInv_def)
  }
  with inv show ?thesis
    by (auto simp: setUploadHash_def split: sum.splits option.splits)
qed

lemma FinishUpload_storeInv: "storeInv s \<Longrightarrow> storeInv (snd (FinishUpload hexsum s uploadId parts))"
proof -
  assume inv: "storeInv s"
  {
    fix udoc
    obtain r1 s1 where x: "setUploadHash hexsum s uploadId udoc = (r1, s1)"
      by (cases "setUploadHash hexsum s uploadId udoc") blast
    with setUploadHash_storeInv [OF inv, of hexsum uploadId udoc] have "storeInv s1" by simp
    with x have "storeInv (snd (case setUploadHash hexsum s uploadId udoc of
                       (Inl e, s1) \<Rightarrow>
                         if causeIsErrNotFound e then (Inl UploadExpiredOrRemoved, s1)
                         else (Inl e, s1)
                     | (Inr hash, s1) \<Rightarrow>
                         (case indexSizes (uploadDoc.Parts udoc) of
                            None \<Rightarrow> (Inl RuntimePanic, s1)
                          | Some ws \<Rightarrow> (Inr (\<lparr>Sizes = ws\<rparr>, hash), s1))))"
      by (auto split: sum.splits option.splits)
  }
  with inv show ?thesis
    by (auto simp: FinishUpload_def split: sum.splits option.splits)
qed

lemma storeInv_filter: "storeInv s \<Longrightarrow> storeInv (s\<lparr>uploadc := filter P (uploadc s)\<rparr>)"
  by (auto simp: storeInv_def distinct_map_filter list_all_iff)

lemma removeUpload_storeInv: "storeInv s \<Longrightarrow> storeInv (snd (removeUpload s udoc))"
proof -
  assume inv: "storeInv s"
  then have dist: "distinct (map doc_id (uploadc s))" by (simp add: storeInv_def)
  obtain r s' where res: "removeUpload s udoc = (r, s')" by (cases "removeUpload s udoc") blast
  from removeUpload_uploadc [OF dist res]
  have "uploadc s' = uploadc (s\<lparr>uploadc := filter (\<lambda>x. doc_id x \<noteq> Id udoc) (uploadc s)\<rparr>)" by simp
  with storeInv_filter [OF inv, of "\<lambda>x. doc_id x \<noteq> Id udoc"] have "storeInv s'"
    by (simp add: storeInv_def)
  with res show ?thesis by simp
qed

lemma RemoveUpload_storeInv: "storeInv s \<Longrightarrow> storeInv (snd (RemoveUpload s uploadId))"
  by (auto simp: RemoveUpload_def removeUpload_storeInv split: sum.splits)

lemma removeUploads_storeInv: "storeInv s \<Longrightarrow> storeInv (snd (removeUploads s us))"
proof (induction us arbitrary: s)
  case Nil
  then show ?case by simp
next
  case (Cons u us)
  obtain r1 s1 where r1: "removeUpload s u = (r1, s1)" by (cases "removeUpload s u") blast
  with removeUpload_storeInv [OF Cons.prems, of u] have "storeInv s1" by simp
  with Cons.IH [of s1] r1 show ?case by (cases r1) simp_all
qed

lemma RemoveExpiredUploads_storeInv: "storeInv s \<Longrightarrow> storeInv (snd (RemoveExpiredUploads itErr now s))"
proof -
  assume inv: "storeInv s"
  obtain r1 s1 where r1: "removeUploads s (expiredUploads s now) = (r1, s1)"
    by (cases "removeUploads s (expiredUploads s now)") blast
  with removeUploads_storeInv [OF inv, of "expiredUploads s now"] have "storeInv s1" by simp
  with r1 show ?thesis
    by (auto simp: RemoveExpiredUploads_def split: option.splits)
qed

lemma reachable_storeInv: "reachable s \<Longrightarrow> storeInv s"
proof (induction rule: reachable.induct)
  case (initial b k)
  show ?case by (simp add: storeInv_def)
qed (simp_all add: NewUpload_storeInv PutPart_storeInv FinishUpload_storeInv
       RemoveUpload_storeInv RemoveExpiredUploads_storeInv)

lemma finishedInv_blobs [simp]: "finishedInv (s\<lparr>blobs := b\<rparr>) = finishedInv s"
  by (simp add: finishedInv_def)

lemma finishedInv_broken [simp]: "finishedInv (s\<lparr>broken := k\<rparr>) = finishedInv s"
  by (simp add: finishedInv_def)

lemma finishedInv_logged [simp]: "finishedInv (s\<lparr>logged := l\<rparr>) = finishedInv s"
  by (simp add: finishedInv_def)


lemma finishedDocInv_unfinished: "doc_hash d = None \<Longrightarrow> finishedDocInv d"
  by (simp add: finishedDocInv_def)
















section \<open>Claims\<close>

text \<open>
  C1. \<^verbatim>\<open>FinishUpload\<close> is claimed to succeed whenever all parts are complete, their
  sizes are valid and the expected hashes match the stored ones. The code does not:
  an upload of one complete part of 1024 bytes, which \<^verbatim>\<open>PutPart\<close> accepts as the last
  part, is refused by \<^verbatim>\<open>FinishUpload\<close> with "part 0 was too small" although the
  expected list matches the stored records (\<open>checkFinishParts\<close> returns nil).
\<close>

theorem FinishUpload_matching_single_part_fails:
  "PutPart (exStore [exDoc ''u2'' None []] Map.empty {}) ''u2'' 0 [7] 1024 ''h''
       = (None, exStore [exDoc ''u2'' None [Some (exPart ''h'' 1024 True)]] [''u2/0'' \<mapsto> [7]] {})
   \<and> checkFinishParts 0 [\<lparr>Part.Hash = ''h''\<rparr>] [Some (exPart ''h'' 1024 True)] = None
   \<and> FinishUpload hexsum (exStore [exDoc ''u2'' None [Some (exPart ''h'' 1024 True)]] [''u2/0'' \<mapsto> [7]] {})
         ''u2'' [\<lparr>Part.Hash = ''h''\<rparr>]
       = (Inl (PartWasTooSmall 0 1024),
          exStore [exDoc ''u2'' None [Some (exPart ''h'' 1024 True)]] [''u2/0'' \<mapsto> [7]] {})"
  by (simp add: model_defs)

text \<open>
  C2 (as amended). \<^verbatim>\<open>setUploadHash\<close> decides on the document that
  \<^verbatim>\<open>FinishUpload\<close> read at its start. When that document has a hash, the hash is
  returned and nothing is written; \<^verbatim>\<open>FinishUpload\<close> then returns it with the size
  index and no error, given that the part checks pass. When that document has no hash,
  the computed hash is written by an update that selects by id alone: it replaces
  whatever hash the stored document has at that time, and fails only when no document
  has the id.
\<close>

theorem setUploadHash_write:
  assumes dist: "distinct (map doc_id (uploadc s))"
    and found: "coll_FindId uploadId (uploadc s) = Some d"
  shows "(uploadDoc.Hash udoc \<noteq> [] \<longrightarrow> setUploadHash hexsum s uploadId udoc = (Inr (uploadDoc.Hash udoc), s))
       \<and> (\<forall>h. uploadDoc.Hash udoc = [] \<and> wholeHash hexsum s uploadId udoc = Inr h
            \<longrightarrow> setUploadHash hexsum s uploadId udoc
                = (Inr h, s\<lparr>uploadc := map (\<lambda>x. if doc_id x = uploadId then x\<lparr>doc_hash := Some h\<rparr> else x) (uploadc s)\<rparr>))
       \<and> (\<forall>parts. uploadDoc.Hash (decodeDoc d) \<noteq> [] \<and> length parts = length (doc_parts d)
              \<and> checkFinishParts 0 parts (doc_parts d) = None
              \<and> checkPartSizes (doc_parts d) (- 1) 0 = None
            \<longrightarrow> (\<exists>ws. FinishUpload hexsum s uploadId parts
                        = (Inr (\<lparr>Sizes = ws\<rparr>, uploadDoc.Hash (decodeDoc d)), s)))"
proof (intro conjI allI impI)
  assume "uploadDoc.Hash udoc \<noteq> []"
  then show "setUploadHash hexsum s uploadId udoc = (Inr (uploadDoc.Hash udoc), s)"
    by (simp add: setUploadHash_def)
next
  fix h
  assume "uploadDoc.Hash udoc = [] \<and> wholeHash hexsum s uploadId udoc = Inr h"
  then show "setUploadHash hexsum s uploadId udoc
                = (Inr h, s\<lparr>uploadc := map (\<lambda>x. if doc_id x = uploadId then x\<lparr>doc_hash := Some h\<rparr> else x) (uploadc s)\<rparr>)"
    using found by (simp add: setUploadHash_def coll_UpdateId_distinct [OF dist])
next
  fix parts
  assume a: "uploadDoc.Hash (decodeDoc d) \<noteq> [] \<and> length parts = length (doc_parts d)
              \<and> checkFinishParts 0 parts (doc_parts d) = None
              \<and> checkPartSizes (doc_parts d) (- 1) 0 = None"
  have get: "getUpload s uploadId = Inr (decodeDoc d)"
    using found by (simp add: getUpload_def)
  have parts: "uploadDoc.Parts (decodeDoc d) = doc_parts d" by (simp add: decodeDoc_def)
  from a have len: "length parts = length (doc_parts d)"
    and cf: "checkFinishParts 0 parts (doc_parts d) = None" by simp_all
  from cf have "list_all2 (\<lambda>p pu. \<exists>u. pu = Some u \<and> Complete u \<and> Part.Hash p = PartInfo.Hash u) parts (doc_parts d)"
    unfolding checkFinishParts_None_iff [OF len] .
  then obtain ws where ws: "indexSizes (doc_parts d) = Some ws"
    using indexSizes_Some [of "\<lambda>p u. Complete u \<and> Part.Hash p = PartInfo.Hash u" parts "doc_parts d"] by blast
  from a get ws have "FinishUpload hexsum s uploadId parts = (Inr (\<lparr>Sizes = ws\<rparr>, uploadDoc.Hash (decodeDoc d)), s)"
    by (simp add: FinishUpload_def parts setUploadHash_def)
  then show "\<exists>ws. FinishUpload hexsum s uploadId parts = (Inr (\<lparr>Sizes = ws\<rparr>, uploadDoc.Hash (decodeDoc d)), s)"
    by blast
qed

text \<open>
  C2, counterexample to the claim as stated (the write succeeds only if the hash is
  unset, and a finalized upload gets its hash back and no error). In both cases
  \<^verbatim>\<open>setUploadHash\<close> runs on a document that was read without a hash while the
  stored document has one. First, the stored hash is \<open>X\<close>: the update succeeds and
  replaces it. Second, the stored document was finalized by another caller and the
  backing store fails on a part blob: the hash is computed again from the blobs and the
  result is an error, not the stored hash.
\<close>

theorem setUploadHash_overwrites_hash:
  "coll_FindId ''u1'' (uploadc (exStore [exDoc ''u1'' (Some ''X'') [Some (exPart ''h0'' 5242880 True)]] Map.empty {}))
     = Some (exDoc ''u1'' (Some ''X'') [Some (exPart ''h0'' 5242880 True)])
   \<and> setUploadHash exHexsum
       (exStore [exDoc ''u1'' (Some ''X'') [Some (exPart ''h0'' 5242880 True)]] Map.empty {})
       ''u1'' (decodeDoc (exDoc ''u1'' None [Some (exPart ''h0'' 5242880 True)]))
     = (Inr ''h0'', exStore [exDoc ''u1'' (Some ''h0'') [Some (exPart ''h0'' 5242880 True)]] Map.empty {})
   \<and> setUploadHash exHexsum
       (exStore [exDoc ''u2'' (Some ''12345'') [Some (exPart ''h0'' 5242880 True), Some (exPart ''h1'' 5242880 True)]]
                [''u2/0'' \<mapsto> [1, 2, 3], ''u2/1'' \<mapsto> [4, 5]] {''u2/0''})
       ''u2'' (decodeDoc (exDoc ''u2'' None [Some (exPart ''h0'' 5242880 True), Some (exPart ''h1'' 5242880 True)]))
     = (Inl (CannotOpenBlob ''u2/0'' (BackendFailure ''u2/0'')),
        exStore [exDoc ''u2'' (Some ''12345'') [Some (exPart ''h0'' 5242880 True), Some (exPart ''h1'' 5242880 True)]]
                [''u2/0'' \<mapsto> [1, 2, 3], ''u2/1'' \<mapsto> [4, 5]] {''u2/0''})"
  by (simp add: model_defs)

text \<open>
  C2, witness: the three cases on a store whose document is finalized.
\<close>

theorem setUploadHash_write_witness:
  "setUploadHash exHexsum
       (exStore [exDoc ''u1'' (Some ''h0'') [Some (exPart ''h0'' 5242880 True)]] Map.empty {})
       ''u1'' (decodeDoc (exDoc ''u1'' (Some ''h0'') [Some (exPart ''h0'' 5242880 True)]))
     = (Inr ''h0'', exStore [exDoc ''u1'' (Some ''h0'') [Some (exPart ''h0'' 5242880 True)]] Map.empty {})
   \<and> setUploadHash exHexsum
       (exStore [exDoc ''u1'' (Some ''h0'') [Some (exPart ''h0'' 5242880 True)]] Map.empty {})
       ''u1'' (decodeDoc (exDoc ''u1'' None [Some (exPart ''h0'' 5242880 True)]))
     = (Inr ''h0'', exStore [exDoc ''u1'' (Some ''h0'') [Some (exPart ''h0'' 5242880 True)]] Map.empty {})
   \<and> (\<exists>ws. FinishUpload exHexsum
       (exStore [exDoc ''u1'' (Some ''h0'') [Some (exPart ''h0'' 5242880 True)]] Map.empty {})
       ''u1'' [\<lparr>Part.Hash = ''h0''\<rparr>]
     = (Inr (\<lparr>Sizes = ws\<rparr>, ''h0''), exStore [exDoc ''u1'' (Some ''h0'') [Some (exPart ''h0'' 5242880 True)]] Map.empty {}))"
proof -
  let ?ps = "[Some (exPart ''h0'' 5242880 True)]"
  let ?d = "exDoc ''u1'' (Some ''h0'') ?ps"
  let ?s = "exStore [?d] Map.empty {}"
  have dist: "distinct (map doc_id (uploadc ?s))" by (simp add: model_defs)
  have found: "coll_FindId ''u1'' (uploadc ?s) = Some ?d" by (simp add: model_defs)
  note w = setUploadHash_write [OF dist found]
  have a: "uploadDoc.Hash (decodeDoc ?d) \<noteq> []" by (simp add: model_defs)
  with w [of "decodeDoc ?d" exHexsum]
  have 1: "setUploadHash exHexsum ?s ''u1'' (decodeDoc ?d) = (Inr (uploadDoc.Hash (decodeDoc ?d)), ?s)"
    by blast
  have b: "uploadDoc.Hash (decodeDoc (exDoc ''u1'' None ?ps)) = []
         \<and> wholeHash exHexsum ?s ''u1'' (decodeDoc (exDoc ''u1'' None ?ps)) = Inr ''h0''"
    by (simp add: model_defs)
  with w [of "decodeDoc (exDoc ''u1'' None ?ps)" exHexsum]
  have 2: "setUploadHash exHexsum ?s ''u1'' (decodeDoc (exDoc ''u1'' None ?ps))
       = (Inr ''h0'', ?s\<lparr>uploadc := map (\<lambda>x. if doc_id x = ''u1'' then x\<lparr>doc_hash := Some ''h0''\<rparr> else x) (uploadc ?s)\<rparr>)"
    by blast
  have c: "uploadDoc.Hash (decodeDoc ?d) \<noteq> [] \<and> length [\<lparr>Part.Hash = ''h0''\<rparr>] = length (doc_parts ?d)
              \<and> checkFinishParts 0 [\<lparr>Part.Hash = ''h0''\<rparr>] (doc_parts ?d) = None
              \<and> checkPartSizes (doc_parts ?d) (- 1) 0 = None"
    by (simp add: model_defs)
  with w [of "decodeDoc ?d" exHexsum]
  have 3: "\<exists>ws. FinishUpload exHexsum ?s ''u1'' [\<lparr>Part.Hash = ''h0''\<rparr>]
                        = (Inr (\<lparr>Sizes = ws\<rparr>, uploadDoc.Hash (decodeDoc ?d)), ?s)"
    by blast
  from 1 2 3 show ?thesis by (simp add: model_defs)
qed

text \<open>
  C3 (as amended). \<^verbatim>\<open>RemoveExpiredUploads\<close> removes the expired uploads in the
  order the iterator yields them and stops at the first one whose removal returns an
  error: it returns that error, and the expired uploads after it are not processed,
  their documents are still in the collection.
\<close>

theorem RemoveExpiredUploads_stops_at_first_error:
  assumes dist: "distinct (map doc_id (uploadc s))"
    and split: "expiredUploads s now = us1 @ u # us2"
    and before: "removeUploads s us1 = (None, s1)"
    and fails: "removeUpload s1 u = (Some e, s2)"
  shows "RemoveExpiredUploads itErr now s = (Some e, s2)
       \<and> (\<forall>u'\<in>set us2. \<exists>d. coll_FindId (Id u') (uploadc s2) = Some d \<and> decodeDoc d = u'
              \<and> doc_expires d < now)"
proof
  show "RemoveExpiredUploads itErr now s = (Some e, s2)"
    using split before fails by (simp add: RemoveExpiredUploads_def removeUploads_append)
  have run: "removeUploads s (us1 @ [u]) = (Some e, s2)"
    using before fails by (simp add: removeUploads_append)
  from removeUploads_uploadc [OF dist run] obtain X where X: "X \<subseteq> Id ` set (us1 @ [u])"
    "uploadc s2 = filter (\<lambda>x. doc_id x \<notin> X) (uploadc s)" by blast
  from distinct_expiredUploads [OF dist, of now] split
  have dis: "distinct (map Id (us1 @ u # us2))" by simp
  show "\<forall>u'\<in>set us2. \<exists>d. coll_FindId (Id u') (uploadc s2) = Some d \<and> decodeDoc d = u' \<and> doc_expires d < now"
  proof
    fix u' assume u': "u' \<in> set us2"
    then have in2: "Id u' \<in> Id ` set us2" by simp
    from dis have "Id u \<notin> Id ` set us2" "Id ` set us1 \<inter> Id ` set us2 = {}" by auto
    with in2 have "Id u' \<notin> Id ` set (us1 @ [u])" by auto
    with X(1) have notX: "Id u' \<notin> X" by blast
    from u' split have "u' \<in> set (expiredUploads s now)" by simp
    then obtain d where d: "d \<in> set (uploadc s)" "doc_expires d < now" "decodeDoc d = u'"
      by (auto simp: expiredUploads_def)
    from coll_FindId_distinct [OF dist d(1)] d(3)
    have "coll_FindId (Id u') (uploadc s) = Some d" by (simp add: Id_decodeDoc [symmetric])
    with coll_FindId_filter_other [OF notX, of "uploadc s"] X(2) d
    show "\<exists>d. coll_FindId (Id u') (uploadc s2) = Some d \<and> decodeDoc d = u' \<and> doc_expires d < now"
      by simp
  qed
qed

text \<open>
  C3, counterexample to the claim as stated (a failing removal does not abort the
  sweep): two expired uploads, the blob of the first cannot be removed; the sweep
  returns the error of the first and leaves the second, document and blob, in place.
\<close>

theorem RemoveExpiredUploads_aborts_on_removal_error:
  "expiredUploads
      (exStore [exDoc ''u1'' None [Some (exPart ''h1'' 5242880 True)], exDoc ''u2'' None [Some (exPart ''h2'' 5242880 True)]]
               [''u1/0'' \<mapsto> [1], ''u2/0'' \<mapsto> [2]] {''u1/0''}) 200
     = [decodeDoc (exDoc ''u1'' None [Some (exPart ''h1'' 5242880 True)]),
        decodeDoc (exDoc ''u2'' None [Some (exPart ''h2'' 5242880 True)])]
   \<and> RemoveExpiredUploads None 200
      (exStore [exDoc ''u1'' None [Some (exPart ''h1'' 5242880 True)], exDoc ''u2'' None [Some (exPart ''h2'' 5242880 True)]]
               [''u1/0'' \<mapsto> [1], ''u2/0'' \<mapsto> [2]] {''u1/0''})
     = (Some (FailedToRemoveSomeData (BackendFailure ''u1/0'')),
        \<lparr>uploadc = [exDoc ''u2'' None [Some (exPart ''h2'' 5242880 True)]],
         blobs = [''u1/0'' \<mapsto> [1], ''u2/0'' \<mapsto> [2]], broken = {''u1/0''},
         logged = [(''u1/0'', BackendFailure ''u1/0'')]\<rparr>)"
  by (simp add: model_defs)

text \<open>
  C3, witness: the same store, with an iterator error pending as well.
\<close>

theorem RemoveExpiredUploads_stops_at_first_error_witness:
  "RemoveExpiredUploads (Some CursorFailure) 200
      (exStore [exDoc ''u1'' None [Some (exPart ''h1'' 5242880 True)], exDoc ''u2'' None [Some (exPart ''h2'' 5242880 True)]]
               [''u1/0'' \<mapsto> [1], ''u2/0'' \<mapsto> [2]] {''u1/0''})
     = (Some (FailedToRemoveSomeData (BackendFailure ''u1/0'')),
        \<lparr>uploadc = [exDoc ''u2'' None [Some (exPart ''h2'' 5242880 True)]],
         blobs = [''u1/0'' \<mapsto> [1], ''u2/0'' \<mapsto> [2]], broken = {''u1/0''},
         logged = [(''u1/0'', BackendFailure ''u1/0'')]\<rparr>)
   \<and> (\<exists>d. coll_FindId ''u2'' [exDoc ''u2'' None [Some (exPart ''h2'' 5242880 True)]] = Some d
          \<and> decodeDoc d = decodeDoc (exDoc ''u2'' None [Some (exPart ''h2'' 5242880 True)])
          \<and> doc_expires d < 200)"
proof -
  let ?d1 = "exDoc ''u1'' None [Some (exPart ''h1'' 5242880 True)]"
  let ?d2 = "exDoc ''u2'' None [Some (exPart ''h2'' 5242880 True)]"
  let ?s = "exStore [?d1, ?d2] [''u1/0'' \<mapsto> [1], ''u2/0'' \<mapsto> [2]] {''u1/0''}"
  let ?s2 = "\<lparr>uploadc = [?d2], blobs = [''u1/0'' \<mapsto> [1], ''u2/0'' \<mapsto> [2 :: 8 word]], broken = {''u1/0''},
         logged = [(''u1/0'', BackendFailure ''u1/0'')]\<rparr>"
  have dist: "distinct (map doc_id (uploadc ?s))" by (simp add: model_defs)
  have split: "expiredUploads ?s 200 = [] @ decodeDoc ?d1 # [decodeDoc ?d2]" by (simp add: model_defs)
  have before: "removeUploads ?s [] = (None, ?s)" by simp
  have fails: "removeUpload ?s (decodeDoc ?d1) = (Some (FailedToRemoveSomeData (BackendFailure ''u1/0'')), ?s2)"
    by (simp add: model_defs)
  from RemoveExpiredUploads_stops_at_first_error [OF dist split before fails, of "Some CursorFailure"]
  have r: "RemoveExpiredUploads (Some CursorFailure) 200 ?s = (Some (FailedToRemoveSomeData (BackendFailure ''u1/0'')), ?s2)"
    and k: "\<forall>u'\<in>set [decodeDoc ?d2]. \<exists>d. coll_FindId (Id u') (uploadc ?s2) = Some d \<and> decodeDoc d = u' \<and> doc_expires d < 200"
    by blast+
  from k have "\<exists>d. coll_FindId (Id (decodeDoc ?d2)) (uploadc ?s2) = Some d \<and> decodeDoc d = decodeDoc ?d2 \<and> doc_expires d < 200"
    by simp
  then have "\<exists>d. coll_FindId ''u2'' [?d2] = Some d \<and> decodeDoc d = decodeDoc ?d2 \<and> doc_expires d < 200"
    by (simp add: Id_decodeDoc exDoc_def)
  with r show ?thesis by blast
qed

text \<open>
  C4 (as amended). \<^verbatim>\<open>removeUpload\<close> on a document that was read without a hash:
  when the stored document has a hash by the time of the delete, the conditional delete
  matches nothing; the document is then deleted by id all the same, no part blob is
  removed, nothing is logged and nil is returned. When the document is gone already,
  the store is left as it is.
\<close>

theorem removeUpload_lost_race:
  assumes dist: "distinct (map doc_id (uploadc s))"
    and unf: "uploadDoc.Hash udoc = []"
  shows "(\<forall>d h. coll_FindId (Id udoc) (uploadc s) = Some d \<and> doc_hash d = Some h
            \<longrightarrow> coll_Remove (\<lambda>x. doc_id x = Id udoc \<and> doc_hash x = None) (uploadc s) = None
              \<and> removeUpload s udoc = (None, s\<lparr>uploadc := filter (\<lambda>x. doc_id x \<noteq> Id udoc) (uploadc s)\<rparr>))
       \<and> (coll_FindId (Id udoc) (uploadc s) = None \<longrightarrow> removeUpload s udoc = (None, s))"
proof (intro conjI allI impI)
  fix d h
  assume a: "coll_FindId (Id udoc) (uploadc s) = Some d \<and> doc_hash d = Some h"
  then show "coll_Remove (\<lambda>x. doc_id x = Id udoc \<and> doc_hash x = None) (uploadc s) = None"
    by (simp add: coll_Remove_distinct [OF dist])
  from a show "removeUpload s udoc = (None, s\<lparr>uploadc := filter (\<lambda>x. doc_id x \<noteq> Id udoc) (uploadc s)\<rparr>)"
    by (intro removeUpload_keeps_blobs [OF dist]) blast
next
  assume "coll_FindId (Id udoc) (uploadc s) = None"
  then show "removeUpload s udoc = (None, s)"
    using unf by (simp add: removeUpload_def coll_Remove_distinct [OF dist] coll_RemoveId_distinct [OF dist])
qed

text \<open>
  C4, counterexample to the claim as stated (the metadata record is deleted only by
  the conditional delete): the stored document has a hash, \<^verbatim>\<open>removeUpload\<close> runs on
  a document read without one, and the stored document is deleted.
\<close>

theorem removeUpload_deletes_finalized_record:
  "coll_FindId ''u1'' (uploadc (exStore [exDoc ''u1'' (Some ''h1'') [Some (exPart ''h1'' 5242880 True)]] [''u1/0'' \<mapsto> [1]] {}))
     = Some (exDoc ''u1'' (Some ''h1'') [Some (exPart ''h1'' 5242880 True)])
   \<and> removeUpload (exStore [exDoc ''u1'' (Some ''h1'') [Some (exPart ''h1'' 5242880 True)]] [''u1/0'' \<mapsto> [1]] {})
        (decodeDoc (exDoc ''u1'' None [Some (exPart ''h1'' 5242880 True)]))
     = (None, exStore [] [''u1/0'' \<mapsto> [1]] {})"
  by (simp add: model_defs)

text \<open>
  C4, witness: the finalized document is deleted and its blob kept; on the store
  without the document nothing changes.
\<close>

theorem removeUpload_lost_race_witness:
  "coll_Remove (\<lambda>x. doc_id x = ''u1'' \<and> doc_hash x = None)
       [exDoc ''u1'' (Some ''h1'') [Some (exPart ''h1'' 5242880 True)], exDoc ''u2'' None []] = None
   \<and> removeUpload (exStore [exDoc ''u1'' (Some ''h1'') [Some (exPart ''h1'' 5242880 True)], exDoc ''u2'' None []] [''u1/0'' \<mapsto> [1]] {})
        (decodeDoc (exDoc ''u1'' None [Some (exPart ''h1'' 5242880 True)]))
     = (None, exStore [exDoc ''u2'' None []] [''u1/0'' \<mapsto> [1]] {})
   \<and> removeUpload (exStore [exDoc ''u2'' None []] [''u1/0'' \<mapsto> [1]] {})
        (decodeDoc (exDoc ''u1'' None [Some (exPart ''h1'' 5242880 True)]))
     = (None, exStore [exDoc ''u2'' None []] [''u1/0'' \<mapsto> [1]] {})"
proof -
  let ?ps = "[Some (exPart ''h1'' 5242880 True)]"
  let ?d = "exDoc ''u1'' (Some ''h1'') ?ps"
  let ?u = "decodeDoc (exDoc ''u1'' None ?ps)"
  let ?s = "exStore [?d, exDoc ''u2'' None []] [''u1/0'' \<mapsto> [1]] {}"
  let ?t = "exStore [exDoc ''u2'' None []] [''u1/0'' \<mapsto> [1]] {}"
  have dist: "distinct (map doc_id (uploadc ?s))" by (simp add: model_defs)
  have unf: "uploadDoc.Hash ?u = []" by (simp add: model_defs)
  have a: "coll_FindId (Id ?u) (uploadc ?s) = Some ?d \<and> doc_hash ?d = Some ''h1''" by (simp add: model_defs)
  from removeUpload_lost_race [OF dist unf] a
  have "coll_Remove (\<lambda>x. doc_id x = Id ?u \<and> doc_hash x = None) (uploadc ?s) = None
      \<and> removeUpload ?s ?u = (None, ?s\<lparr>uploadc := filter (\<lambda>x. doc_id x \<noteq> Id ?u) (uploadc ?s)\<rparr>)"
    by blast
  then have 1: "coll_Remove (\<lambda>x. doc_id x = ''u1'' \<and> doc_hash x = None) [?d, exDoc ''u2'' None []] = None
      \<and> removeUpload ?s ?u = (None, ?t)"
    by (simp add: model_defs)
  have dist': "distinct (map doc_id (uploadc ?t))" by (simp add: model_defs)
  have b: "coll_FindId (Id ?u) (uploadc ?t) = None" by (simp add: model_defs)
  from removeUpload_lost_race [OF dist' unf] b have 2: "removeUpload ?t ?u = (None, ?t)" by blast
  from 1 2 show ?thesis by blast
qed

text \<open>
  C5 (as amended). \<^verbatim>\<open>removeUpload\<close> removes part blobs only for a document read
  without a hash whose conditional delete succeeded. Then the blob of every index of
  the part array is removed or was absent already, except the blobs on which the
  backing store fails: these are left, each failure is logged, the loop goes on to the
  next index, and the result is an error exactly when there was such a failure. For a
  document read with a hash the metadata document is deleted, no blob is removed and
  nil is returned.
\<close>

theorem removeUpload_blobs:
  assumes dist: "distinct (map doc_id (uploadc s))"
    and res: "removeUpload s udoc = (r, s')"
  shows "(uploadDoc.Hash udoc = [] \<and> (\<exists>d. coll_FindId (Id udoc) (uploadc s) = Some d \<and> doc_hash d = None)
          \<longrightarrow> uploadc s' = filter (\<lambda>x. doc_id x \<noteq> Id udoc) (uploadc s)
            \<and> (\<forall>j<length (uploadDoc.Parts udoc).
                 if uploadPartName (Id udoc) (int j) \<in> broken s
                 then blobs s' (uploadPartName (Id udoc) (int j)) = blobs s (uploadPartName (Id udoc) (int j))
                    \<and> (uploadPartName (Id udoc) (int j), BackendFailure (uploadPartName (Id udoc) (int j))) \<in> set (logged s')
                 else blobs s' (uploadPartName (Id udoc) (int j)) = None)
            \<and> (r = None) = (\<forall>j<length (uploadDoc.Parts udoc). uploadPartName (Id udoc) (int j) \<notin> broken s)
            \<and> (\<forall>e. r = Some e \<longrightarrow>
                 (\<exists>j<length (uploadDoc.Parts udoc). uploadPartName (Id udoc) (int j) \<in> broken s
                    \<and> e = FailedToRemoveSomeData (BackendFailure (uploadPartName (Id udoc) (int j))))))
       \<and> (uploadDoc.Hash udoc \<noteq> []
          \<longrightarrow> r = None \<and> blobs s' = blobs s \<and> logged s' = logged s
            \<and> uploadc s' = filter (\<lambda>x. doc_id x \<noteq> Id udoc) (uploadc s))"
proof (intro conjI impI)
  assume fin: "uploadDoc.Hash udoc \<noteq> []"
  with removeUpload_keeps_blobs [OF dist, of udoc] res
  have "r = None" "s' = s\<lparr>uploadc := filter (\<lambda>x. doc_id x \<noteq> Id udoc) (uploadc s)\<rparr>" by simp_all
  then show "r = None" "blobs s' = blobs s" "logged s' = logged s"
    "uploadc s' = filter (\<lambda>x. doc_id x \<noteq> Id udoc) (uploadc s)" by simp_all
next
  assume a: "uploadDoc.Hash udoc = [] \<and> (\<exists>d. coll_FindId (Id udoc) (uploadc s) = Some d \<and> doc_hash d = None)"
  let ?s2 = "s\<lparr>uploadc := filter (\<lambda>x. doc_id x \<noteq> Id udoc) (uploadc s)\<rparr>"
  let ?N = "partBlobNames (Id udoc) 0 (uploadDoc.Parts udoc)"
  obtain r0 s3 where rp: "removePartBlobs ?s2 (Id udoc) 0 (uploadDoc.Parts udoc) None = (r0, s3)"
    by (cases "removePartBlobs ?s2 (Id udoc) 0 (uploadDoc.Parts udoc) None") blast
  from a obtain d where "coll_FindId (Id udoc) (uploadc s) = Some d" "doc_hash d = None" by blast
  from removeUpload_unfinished_deleted [OF dist _ this] a res rp
  have s': "s' = s3" and r: "r = (case r0 of None \<Rightarrow> None | Some e \<Rightarrow> Some (FailedToRemoveSomeData e))"
    by (auto split: option.splits)
  note eff = removePartBlobs_effect [OF rp]
  have N: "?N = {uploadPartName (Id udoc) (int j) | j. j < length (uploadDoc.Parts udoc)}"
    using partBlobNames_indexed [of "Id udoc" 0 "uploadDoc.Parts udoc"] by simp
  from eff show "uploadc s' = filter (\<lambda>x. doc_id x \<noteq> Id udoc) (uploadc s)"
    by (simp add: s')
  show "\<forall>j<length (uploadDoc.Parts udoc).
                 if uploadPartName (Id udoc) (int j) \<in> broken s
                 then blobs s' (uploadPartName (Id udoc) (int j)) = blobs s (uploadPartName (Id udoc) (int j))
                    \<and> (uploadPartName (Id udoc) (int j), BackendFailure (uploadPartName (Id udoc) (int j))) \<in> set (logged s')
                 else blobs s' (uploadPartName (Id udoc) (int j)) = None"
  proof (intro allI impI)
    fix j assume "j < length (uploadDoc.Parts udoc)"
    then have "uploadPartName (Id udoc) (int j) \<in> ?N" unfolding N by blast
    with eff show "if uploadPartName (Id udoc) (int j) \<in> broken s
                 then blobs s' (uploadPartName (Id udoc) (int j)) = blobs s (uploadPartName (Id udoc) (int j))
                    \<and> (uploadPartName (Id udoc) (int j), BackendFailure (uploadPartName (Id udoc) (int j))) \<in> set (logged s')
                 else blobs s' (uploadPartName (Id udoc) (int j)) = None"
      by (simp add: s')
  qed
  from eff have "(r0 = None) = (?N \<inter> broken s = {})" by simp
  also have "\<dots> = (\<forall>j<length (uploadDoc.Parts udoc). uploadPartName (Id udoc) (int j) \<notin> broken s)"
    unfolding N by blast
  finally have "(r0 = None) = (\<forall>j<length (uploadDoc.Parts udoc). uploadPartName (Id udoc) (int j) \<notin> broken s)" .
  moreover have "(r = None) = (r0 = None)" by (cases r0) (simp_all add: r)
  ultimately show "(r = None) = (\<forall>j<length (uploadDoc.Parts udoc). uploadPartName (Id udoc) (int j) \<notin> broken s)"
    by simp
  show "\<forall>e. r = Some e \<longrightarrow>
                 (\<exists>j<length (uploadDoc.Parts udoc). uploadPartName (Id udoc) (int j) \<in> broken s
                    \<and> e = FailedToRemoveSomeData (BackendFailure (uploadPartName (Id udoc) (int j))))"
  proof (intro allI impI)
    fix e assume "r = Some e"
    with r obtain e0 where e0: "r0 = Some e0" "e = FailedToRemoveSomeData e0"
      by (cases r0) auto
    with eff obtain n where "n \<in> ?N \<inter> broken s" "e0 = BackendFailure n" by auto
    then show "\<exists>j<length (uploadDoc.Parts udoc). uploadPartName (Id udoc) (int j) \<in> broken s
                    \<and> e = FailedToRemoveSomeData (BackendFailure (uploadPartName (Id udoc) (int j)))"
      using e0(2) unfolding N by blast
  qed
qed

text \<open>
  C5, counterexample to the claim as stated (the blobs of a record that was already
  finished are removed): the document is deleted and its part blob is still there.
\<close>

theorem removeUpload_keeps_blobs_of_finished_record:
  "removeUpload (exStore [exDoc ''u1'' (Some ''h1'') [Some (exPart ''h1'' 5242880 True)]] [''u1/0'' \<mapsto> [1]] {})
        (decodeDoc (exDoc ''u1'' (Some ''h1'') [Some (exPart ''h1'' 5242880 True)]))
     = (None, exStore [] [''u1/0'' \<mapsto> [1]] {})
   \<and> blobs (exStore [] [''u1/0'' \<mapsto> [1]] {}) (uploadPartName ''u1'' 0) = Some [1]"
  by (simp add: model_defs)

text \<open>
  C5, witness: two parts, the backing store fails on the blob of the first; and a
  finished document.
\<close>

theorem removeUpload_blobs_witness:
  "removeUpload
      (exStore [exDoc ''u1'' None [Some (exPart ''h0'' 5242880 True), Some (exPart ''h1'' 1024 True)]]
               [''u1/0'' \<mapsto> [1], ''u1/1'' \<mapsto> [2]] {''u1/0''})
      (decodeDoc (exDoc ''u1'' None [Some (exPart ''h0'' 5242880 True), Some (exPart ''h1'' 1024 True)]))
     = (Some (FailedToRemoveSomeData (BackendFailure ''u1/0'')),
        \<lparr>uploadc = [], blobs = [''u1/0'' \<mapsto> [1]], broken = {''u1/0''},
         logged = [(''u1/0'', BackendFailure ''u1/0'')]\<rparr>)
   \<and> [''u1/0'' \<mapsto> [1 :: 8 word]] ''u1/1'' = None
   \<and> [''u1/0'' \<mapsto> [1 :: 8 word]] ''u1/0'' = [''u1/0'' \<mapsto> [1], ''u1/1'' \<mapsto> [2]] ''u1/0''
   \<and> (''u1/0'', BackendFailure ''u1/0'') \<in> set [(''u1/0'', BackendFailure ''u1/0'')]
   \<and> removeUpload
      (exStore [exDoc ''u1'' (Some ''h0'') [Some (exPart ''h0'' 5242880 True)]] [''u1/0'' \<mapsto> [1]] {})
      (decodeDoc (exDoc ''u1'' (Some ''h0'') [Some (exPart ''h0'' 5242880 True)]))
     = (None, exStore [] [''u1/0'' \<mapsto> [1]] {})"
proof -
  let ?ps = "[Some (exPart ''h0'' 5242880 True), Some (exPart ''h1'' 1024 True)]"
  let ?d = "exDoc ''u1'' None ?ps"
  let ?u = "decodeDoc ?d"
  let ?s = "exStore [?d] [''u1/0'' \<mapsto> [1], ''u1/1'' \<mapsto> [2]] {''u1/0''}"
  let ?s' = "\<lparr>uploadc = [], blobs = [''u1/0'' \<mapsto> [1 :: 8 word]], broken = {''u1/0''},
         logged = [(''u1/0'', BackendFailure ''u1/0'')]\<rparr>"
  have dist: "distinct (map doc_id (uploadc ?s))" by (simp add: model_defs)
  have res: "removeUpload ?s ?u = (Some (FailedToRemoveSomeData (BackendFailure ''u1/0'')), ?s')"
    by (simp add: model_defs)
  have a: "uploadDoc.Hash ?u = [] \<and> (\<exists>d. coll_FindId (Id ?u) (uploadc ?s) = Some d \<and> doc_hash d = None)"
    by (simp add: model_defs)
  from removeUpload_blobs [OF dist res] a
  have k: "\<forall>j<length (uploadDoc.Parts ?u).
                 if uploadPartName (Id ?u) (int j) \<in> broken ?s
                 then blobs ?s' (uploadPartName (Id ?u) (int j)) = blobs ?s (uploadPartName (Id ?u) (int j))
                    \<and> (uploadPartName (Id ?u) (int j), BackendFailure (uploadPartName (Id ?u) (int j))) \<in> set (logged ?s')
                 else blobs ?s' (uploadPartName (Id ?u) (int j)) = None"
    by blast
  from k [rule_format, of 0]
  have k0: "[''u1/0'' \<mapsto> [1 :: 8 word]] ''u1/0'' = [''u1/0'' \<mapsto> [1], ''u1/1'' \<mapsto> [2]] ''u1/0''
     \<and> (''u1/0'', BackendFailure ''u1/0'') \<in> set [(''u1/0'', BackendFailure ''u1/0'')]"
    by (simp add: model_defs)
  from k [rule_format, of 1]
  have k1: "[''u1/0'' \<mapsto> [1 :: 8 word]] ''u1/1'' = None"
    by (simp add: model_defs)
  let ?df = "exDoc ''u1'' (Some ''h0'') [Some (exPart ''h0'' 5242880 True)]"
  let ?sf = "exStore [?df] [''u1/0'' \<mapsto> [1]] {}"
  have distf: "distinct (map doc_id (uploadc ?sf))" by (simp add: model_defs)
  have resf: "removeUpload ?sf (decodeDoc ?df) = (None, exStore [] [''u1/0'' \<mapsto> [1]] {})"
    by (simp add: model_defs)
  have fin: "uploadDoc.Hash (decodeDoc ?df) \<noteq> []" by (simp add: model_defs)
  from removeUpload_blobs [OF distf resf] fin
  have "blobs (exStore [] [''u1/0'' \<mapsto> [1]] {}) = blobs ?sf" by blast
  with res k0 k1 resf show ?thesis by blast
qed

text \<open>
  C6. \<^verbatim>\<open>FinishUpload\<close> is claimed to exempt the last part from the minimum size.
  The code does not: \<^verbatim>\<open>checkPartSizes(udoc.Parts, -1, 0)\<close> compares every part with
  \<^verbatim>\<open>minPartSize\<close>, the last one too. The upload of the spec's example, a part of
  5242880 bytes and a last part of 1024 bytes, both accepted by \<^verbatim>\<open>PutPart\<close>, is
  refused by \<^verbatim>\<open>FinishUpload\<close> with "part 1 was too small".
\<close>

theorem FinishUpload_small_last_part_rejected:
  "NewUpload (exStore [] Map.empty {}) ''u1'' 100 = (Inr ''u1'', exStore [exDoc ''u1'' None []] Map.empty {})
   \<and> PutPart (exStore [exDoc ''u1'' None []] Map.empty {}) ''u1'' 0 [1, 2, 3] 5242880 ''h0''
       = (None, exStore [exDoc ''u1'' None [Some (exPart ''h0'' 5242880 True)]] [''u1/0'' \<mapsto> [1, 2, 3]] {})
   \<and> PutPart (exStore [exDoc ''u1'' None [Some (exPart ''h0'' 5242880 True)]] [''u1/0'' \<mapsto> [1, 2, 3]] {}) ''u1'' 1 [4, 5] 1024 ''h1''
       = (None, exStore [exDoc ''u1'' None [Some (exPart ''h0'' 5242880 True), Some (exPart ''h1'' 1024 True)]]
                   [''u1/0'' \<mapsto> [1, 2, 3], ''u1/1'' \<mapsto> [4, 5]] {})
   \<and> FinishUpload hexsum
         (exStore [exDoc ''u1'' None [Some (exPart ''h0'' 5242880 True), Some (exPart ''h1'' 1024 True)]]
                   [''u1/0'' \<mapsto> [1, 2, 3], ''u1/1'' \<mapsto> [4, 5]] {})
         ''u1'' [\<lparr>Part.Hash = ''h0''\<rparr>, \<lparr>Part.Hash = ''h1''\<rparr>]
       = (Inl (PartWasTooSmall 1 1024),
          exStore [exDoc ''u1'' None [Some (exPart ''h0'' 5242880 True), Some (exPart ''h1'' 1024 True)]]
                   [''u1/0'' \<mapsto> [1, 2, 3], ''u1/1'' \<mapsto> [4, 5]] {})"
  by (simp add: model_defs)

text \<open>
  C7. \<^verbatim>\<open>PutPart\<close> is claimed to be idempotent: the same call, made again after it
  succeeded, is always a successful no-op. The code does not keep this: an upload gets
  part 0 of 5242880 bytes and then its last part 1 of 1024 bytes, both calls return
  nil; the first call made again, with the same arguments, returns
  "part 1 was too small" and not nil. \<^verbatim>\<open>checkPartSizes\<close> runs before the test
  \<^verbatim>\<open>p.Complete\<close> and its loop compares every part but the one in the call, the
  last part too, with \<^verbatim>\<open>minPartSize\<close>.
\<close>

theorem PutPart_retry_fails_after_small_last_part:
  "NewUpload (exStore [] Map.empty {}) ''u1'' 100 = (Inr ''u1'', exStore [exDoc ''u1'' None []] Map.empty {})
   \<and> PutPart (exStore [exDoc ''u1'' None []] Map.empty {}) ''u1'' 0 [1, 2, 3] 5242880 ''h0''
       = (None, exStore [exDoc ''u1'' None [Some (exPart ''h0'' 5242880 True)]] [''u1/0'' \<mapsto> [1, 2, 3]] {})
   \<and> PutPart (exStore [exDoc ''u1'' None [Some (exPart ''h0'' 5242880 True)]] [''u1/0'' \<mapsto> [1, 2, 3]] {}) ''u1'' 1 [4, 5] 1024 ''h1''
       = (None, exStore [exDoc ''u1'' None [Some (exPart ''h0'' 5242880 True), Some (exPart ''h1'' 1024 True)]]
                   [''u1/0'' \<mapsto> [1, 2, 3], ''u1/1'' \<mapsto> [4, 5]] {})
   \<and> PutPart (exStore [exDoc ''u1'' None [Some (exPart ''h0'' 5242880 True), Some (exPart ''h1'' 1024 True)]]
                   [''u1/0'' \<mapsto> [1, 2, 3], ''u1/1'' \<mapsto> [4, 5]] {})
         ''u1'' 0 [1, 2, 3] 5242880 ''h0''
       = (Some (PartWasTooSmall 1 1024),
          exStore [exDoc ''u1'' None [Some (exPart ''h0'' 5242880 True), Some (exPart ''h1'' 1024 True)]]
                   [''u1/0'' \<mapsto> [1, 2, 3], ''u1/1'' \<mapsto> [4, 5]] {})"
  by (simp add: model_defs)

text \<open>
  C8 (as amended). When a part record with a hash exists at an index, \<^verbatim>\<open>PutPart\<close>
  for that index with another hash always returns an error and leaves the store, and so
  the recorded hash, as it is. The error is the hash mismatch when the call passes the
  checks that come first: the part number and the size are in range and
  \<^verbatim>\<open>checkPartSizes\<close> returns nil.
\<close>

theorem PutPart_other_hash_fails:
  assumes "getUpload s uploadId = Inr udoc"
    and "0 \<le> part" and "part < int (length (uploadDoc.Parts udoc))"
    and "uploadDoc.Parts udoc ! nat part = Some p"
    and "PartInfo.Hash p \<noteq> hashB"
  shows "(\<exists>e. PutPart s uploadId part r psize hashB = (Some e, s))
       \<and> (part < maxParts \<and> 0 < psize \<and> psize < maxPartSize
            \<and> checkPartSizes (uploadDoc.Parts udoc) part psize = None
          \<longrightarrow> PutPart s uploadId part r psize hashB = (Some HashMismatchAlreadyUploaded, s))"
  using assms by (auto simp: PutPart_def split: option.splits)

text \<open>
  C8, counterexample to the claim as stated (the error is always the hash mismatch):
  the second call brings 1024 bytes for part 0 of two; the size check comes first and
  the error is "part too small".
\<close>

theorem PutPart_other_hash_not_always_mismatch_error:
  "PutPart (exStore [exDoc ''u1'' None [Some (exPart ''hA'' 5242880 True), Some (exPart ''h1'' 5242880 True)]] Map.empty {})
      ''u1'' 0 [9] 1024 ''hB''
   = (Some (PartTooSmall 1024),
      exStore [exDoc ''u1'' None [Some (exPart ''hA'' 5242880 True), Some (exPart ''h1'' 5242880 True)]] Map.empty {})
   \<and> PartTooSmall 1024 \<noteq> HashMismatchAlreadyUploaded"
  by (simp add: model_defs)

text \<open>
  C8, witness: a call that passes the checks and fails on the hash.
\<close>

theorem PutPart_other_hash_fails_witness:
  "(\<exists>e. PutPart (exStore [exDoc ''u1'' None [Some (exPart ''hA'' 5242880 True)]] Map.empty {})
            ''u1'' 0 [9] 5242880 ''hB''
          = (Some e, exStore [exDoc ''u1'' None [Some (exPart ''hA'' 5242880 True)]] Map.empty {}))
   \<and> PutPart (exStore [exDoc ''u1'' None [Some (exPart ''hA'' 5242880 True)]] Map.empty {})
            ''u1'' 0 [9] 5242880 ''hB''
          = (Some HashMismatchAlreadyUploaded, exStore [exDoc ''u1'' None [Some (exPart ''hA'' 5242880 True)]] Map.empty {})"
proof -
  let ?s = "exStore [exDoc ''u1'' None [Some (exPart ''hA'' 5242880 True)]] Map.empty {}"
  let ?u = "decodeDoc (exDoc ''u1'' None [Some (exPart ''hA'' 5242880 True)])"
  have g: "getUpload ?s ''u1'' = Inr ?u" by (simp add: model_defs)
  have a: "(0::int) \<le> 0" by simp
  have b: "0 < int (length (uploadDoc.Parts ?u))" by (simp add: model_defs)
  have c: "uploadDoc.Parts ?u ! nat 0 = Some (exPart ''hA'' 5242880 True)" by (simp add: model_defs)
  have d: "PartInfo.Hash (exPart ''hA'' 5242880 True) \<noteq> ''hB''" by (simp add: model_defs)
  have e: "(0::int) < maxParts \<and> (0::int) < 5242880 \<and> (5242880::int) < maxPartSize
            \<and> checkPartSizes (uploadDoc.Parts ?u) 0 5242880 = None"
    by (simp add: model_defs)
  from PutPart_other_hash_fails [OF g a b c d, of "[9]" 5242880] e show ?thesis by blast
qed



text \<open>
  C10. When every part record of the upload has a size that \<^verbatim>\<open>PutPart\<close> accepts
  (\<open>0 < size < 2 ^ 32 - 1\<close>) and \<^verbatim>\<open>FinishUpload\<close> succeeds, the index has one entry
  for each part and each entry, read as an unsigned number, is the recorded size of the
  part: \<^verbatim>\<open>uint32(size)\<close> loses nothing. The sizes are in that range in every store
  that the operations produce (\<open>reachable_storeInv\<close>).
\<close>

theorem FinishUpload_sizes_exact:
  assumes "getUpload s uploadId = Inr udoc"
    and "partSizesInRange (uploadDoc.Parts udoc)"
    and "FinishUpload hexsum s uploadId parts = (Inr (idx, h), s')"
  shows "length (Sizes idx) = length (uploadDoc.Parts udoc)
       \<and> (\<forall>i<length (uploadDoc.Parts udoc).
            \<exists>q. uploadDoc.Parts udoc ! i = Some q \<and> uint (Sizes idx ! i) = Size q)"
proof -
  from FinishUpload_success [OF assms(3)] assms(1) obtain ws
    where "indexSizes (uploadDoc.Parts udoc) = Some ws" and "idx = \<lparr>Sizes = ws\<rparr>"
    by auto
  with indexSizes_exact [OF assms(2)] show ?thesis by simp
qed

text \<open>
  C10, witness: the second part has the largest size that \<^verbatim>\<open>PutPart\<close> accepts.
\<close>

theorem FinishUpload_sizes_exact_witness:
  "FinishUpload exHexsum
      (exStore [exDoc ''u1'' None [Some (exPart ''h0'' 5242880 True), Some (exPart ''h1'' 4294967294 True)]]
               [''u1/0'' \<mapsto> [1, 2, 3], ''u1/1'' \<mapsto> [4, 5]] {})
      ''u1'' [\<lparr>Part.Hash = ''h0''\<rparr>, \<lparr>Part.Hash = ''h1''\<rparr>]
    = (Inr (\<lparr>Sizes = [5242880, 4294967294]\<rparr>, ''12345''),
       exStore [exDoc ''u1'' (Some ''12345'') [Some (exPart ''h0'' 5242880 True), Some (exPart ''h1'' 4294967294 True)]]
               [''u1/0'' \<mapsto> [1, 2, 3], ''u1/1'' \<mapsto> [4, 5]] {})
   \<and> uint ([5242880, 4294967294 :: 32 word] ! 1) = 4294967294"
proof -
  let ?ps = "[Some (exPart ''h0'' 5242880 True), Some (exPart ''h1'' 4294967294 True)]"
  let ?s = "exStore [exDoc ''u1'' None ?ps] [''u1/0'' \<mapsto> [1, 2, 3], ''u1/1'' \<mapsto> [4, 5]] {}"
  let ?s' = "exStore [exDoc ''u1'' (Some ''12345'') ?ps] [''u1/0'' \<mapsto> [1, 2, 3], ''u1/1'' \<mapsto> [4, 5]] {}"
  have g: "getUpload ?s ''u1'' = Inr (decodeDoc (exDoc ''u1'' None ?ps))"
    by (simp add: model_defs)
  have r: "partSizesInRange (uploadDoc.Parts (decodeDoc (exDoc ''u1'' None ?ps)))"
    by (simp add: model_defs partSizesInRange_def)
  have f: "FinishUpload exHexsum ?s ''u1'' [\<lparr>Part.Hash = ''h0''\<rparr>, \<lparr>Part.Hash = ''h1''\<rparr>]
         = (Inr (\<lparr>Sizes = [5242880, 4294967294]\<rparr>, ''12345''), ?s')"
    by (simp add: model_defs)
  from FinishUpload_sizes_exact [OF g r f]
  have "\<forall>i<length (uploadDoc.Parts (decodeDoc (exDoc ''u1'' None ?ps))).
            \<exists>q. uploadDoc.Parts (decodeDoc (exDoc ''u1'' None ?ps)) ! i = Some q
               \<and> uint (Sizes \<lparr>Sizes = [5242880, 4294967294]\<rparr> ! i) = Size q"
    by blast
  from this [rule_format, of 1] have "uint ([5242880, 4294967294 :: 32 word] ! 1) = 4294967294"
    by (simp add: model_defs)
  with f show ?thesis by blast
qed

end
